theory Spec2Isabelle
  imports Complex_Main "HOL-Library.Char_ord" "HOL-Library.List_Lexorder"
begin

section \<open>Heuristic keyword extraction and resume scoring (textProcessing)\<close>

text \<open>
  The development embeds the functions of \<^verbatim>\<open>textProcessing\<close>: \<^verbatim>\<open>extractKeywords\<close>,
  \<^verbatim>\<open>analyzeResume\<close> and every helper they call.

  Conventions of the embedding.
  \<^item> A JavaScript string is a \<^typ>\<open>string\<close>, one \<^typ>\<open>char\<close> per UTF-16 code unit; the
    embedding therefore covers texts whose code units are below 256 (ASCII and Latin-1).
  \<^item> A JavaScript \<^verbatim>\<open>number\<close> that holds a fraction is a \<^typ>\<open>rat\<close>: arithmetic is exact, the
    rounding and the overflow of IEEE doubles are not modelled. A division by zero, which
    yields \<^verbatim>\<open>NaN\<close> or an infinity in the code, is modelled where the score is computed: the
    quotients there are option-valued. Counters that only ever hold natural numbers
    (\<^verbatim>\<open>Map\<close> counts, fragment ids, \<^verbatim>\<open>resumeHits\<close>) are \<^typ>\<open>nat\<close>.
  \<^item> A \<^verbatim>\<open>Map\<close> is an association list in insertion order, a \<^verbatim>\<open>Set\<close> a duplicate-free
    list in insertion order: the code iterates over both.
  \<^item> \<^verbatim>\<open>Array.prototype.sort\<close> with a comparator is stable; it is \<^const>\<open>sort_key\<close>,
    the stable insertion sort of the library.
  \<^item> The templated texts \<^verbatim>\<open>summary\<close>, \<^verbatim>\<open>action\<close> and \<^verbatim>\<open>detail\<close> are represented by the
    values the templates are filled with.
\<close>

subsection \<open>Characters and strings\<close>

text \<open>\<^verbatim>\<open>\s\<close> of a regular expression and the characters removed by \<^verbatim>\<open>trim()\<close>:
  TAB, LF, VT, FF, CR, space and the no-break space.\<close>

definition isSpace :: "char \<Rightarrow> bool" where
  "isSpace c = (c \<in> set [CHR 0x09, CHR 0x0A, CHR 0x0B, CHR 0x0C, CHR 0x0D, CHR 0x20, CHR 0xA0])"

text \<open>The class \<^verbatim>\<open>[a-z0-9]\<close>.\<close>

definition isLowerAlnum :: "char \<Rightarrow> bool" where
  "isLowerAlnum c = (c \<in> set ''abcdefghijklmnopqrstuvwxyz0123456789'')"

text \<open>\<^verbatim>\<open>\w\<close>: the class \<^verbatim>\<open>[A-Za-z0-9_]\<close>.\<close>

definition isWordChar :: "char \<Rightarrow> bool" where
  "isWordChar c = (isLowerAlnum c \<or> c \<in> set ''ABCDEFGHIJKLMNOPQRSTUVWXYZ_'')"

text \<open>\<^verbatim>\<open>toLowerCase\<close> moves the upper-case letters, \<open>A\<close> to \<open>Z\<close> and the Latin-1 letters
  \<open>0xC0\<close> to \<open>0xDE\<close> without the sign \<open>0xD7\<close>, up by 32.\<close>

definition upperChars :: "char list" where
  "upperChars = ''ABCDEFGHIJKLMNOPQRSTUVWXYZ'' @
     [CHR 0xC0, CHR 0xC1, CHR 0xC2, CHR 0xC3, CHR 0xC4, CHR 0xC5, CHR 0xC6, CHR 0xC7,
      CHR 0xC8, CHR 0xC9, CHR 0xCA, CHR 0xCB, CHR 0xCC, CHR 0xCD, CHR 0xCE, CHR 0xCF,
      CHR 0xD0, CHR 0xD1, CHR 0xD2, CHR 0xD3, CHR 0xD4, CHR 0xD5, CHR 0xD6,
      CHR 0xD8, CHR 0xD9, CHR 0xDA, CHR 0xDB, CHR 0xDC, CHR 0xDD, CHR 0xDE]"

definition lowerChar :: "char \<Rightarrow> char" where
  "lowerChar c = (if c \<in> set upperChars then char_of (of_char c + (32 :: nat)) else c)"

definition toLowerCase :: "string \<Rightarrow> string" where
  "toLowerCase s = map lowerChar s"

definition trim :: "string \<Rightarrow> string" where
  "trim s = rev (dropWhile isSpace (rev (dropWhile isSpace s)))"

text \<open>\<^verbatim>\<open>xs.join(' ')\<close>.\<close>

fun joinSpace :: "string list \<Rightarrow> string" where
  "joinSpace [] = []"
| "joinSpace [x] = x"
| "joinSpace (x # y # ys) = x @ CHR '' '' # joinSpace (y # ys)"

text \<open>\<^verbatim>\<open>s.split(' ')\<close>: the pieces between single spaces, empty pieces included; the
  first argument holds the current piece.\<close>

fun splitOn :: "char \<Rightarrow> string \<Rightarrow> string \<Rightarrow> string list" where
  "splitOn d cur [] = [cur]"
| "splitOn d cur (c # cs) = (if c = d then cur # splitOn d [] cs else splitOn d (cur @ [c]) cs)"

definition splitSpace :: "string \<Rightarrow> string list" where
  "splitSpace s = splitOn (CHR '' '') [] s"

text \<open>\<^verbatim>\<open>text.split(/\r?\n/)\<close>: a line feed ends a piece, and a carriage return right
  before it belongs to the separator.\<close>

definition stripCR :: "string \<Rightarrow> string" where
  "stripCR s = (if s \<noteq> [] \<and> last s = CHR 0x0D then butlast s else s)"

fun splitLines :: "string \<Rightarrow> string \<Rightarrow> string list" where
  "splitLines cur [] = [cur]"
| "splitLines cur (c # cs) =
     (if c = CHR 0x0A then stripCR cur # splitLines [] cs else splitLines (cur @ [c]) cs)"

text \<open>\<^verbatim>\<open>s.replace(/\s+/g, ' ')\<close>: every maximal run of white space becomes one space.\<close>

function collapseSpaces :: "string \<Rightarrow> string" where
  "collapseSpaces [] = []"
| "collapseSpaces (c # cs) =
     (if isSpace c then CHR '' '' # collapseSpaces (dropWhile isSpace cs)
      else c # collapseSpaces cs)"
  by pat_completeness auto
termination
  by (relation "measure length") (auto simp: length_dropWhile_le less_Suc_eq_le)

text \<open>The class \<^verbatim>\<open>[^a-z0-9+#\/\s-]\<close> of \<^verbatim>\<open>normalizeTerm\<close>, and the replacement of every
  maximal run of it by one space.\<close>

definition isTermChar :: "char \<Rightarrow> bool" where
  "isTermChar c = (isLowerAlnum c \<or> c = CHR ''+'' \<or> c = CHR ''#'' \<or> c = CHR ''/'' \<or>
     isSpace c \<or> c = CHR ''-'')"

function replaceForeign :: "string \<Rightarrow> string" where
  "replaceForeign [] = []"
| "replaceForeign (c # cs) =
     (if \<not> isTermChar c then CHR '' '' # replaceForeign (dropWhile (\<lambda>d. \<not> isTermChar d) cs)
      else c # replaceForeign cs)"
  by pat_completeness auto
termination
  by (relation "measure length") (auto simp: length_dropWhile_le less_Suc_eq_le)

definition normalizeTerm :: "string \<Rightarrow> string" where
  "normalizeTerm term = trim (collapseSpaces (replaceForeign (toLowerCase term)))"

subsection \<open>Tokenisation\<close>

text \<open>\<^verbatim>\<open>text.toLowerCase().match(/[a-z0-9+#][a-z0-9+#\-\/]*/g) ?? []\<close>: scanning from
  the left, a token starts at the first character of the start class and runs as far as
  the continuation class allows.\<close>

definition isTokenStart :: "char \<Rightarrow> bool" where
  "isTokenStart c = (isLowerAlnum c \<or> c = CHR ''+'' \<or> c = CHR ''#'')"

definition isTokenCont :: "char \<Rightarrow> bool" where
  "isTokenCont c = (isTokenStart c \<or> c = CHR ''-'' \<or> c = CHR ''/'')"

function matchTokens :: "string \<Rightarrow> string list" where
  "matchTokens [] = []"
| "matchTokens (c # cs) =
     (if isTokenStart c then (c # takeWhile isTokenCont cs) # matchTokens (dropWhile isTokenCont cs)
      else matchTokens cs)"
  by pat_completeness auto
termination
  by (relation "measure length") (auto simp: length_dropWhile_le less_Suc_eq_le)

definition tokenize :: "string \<Rightarrow> string list" where
  "tokenize text = matchTokens (toLowerCase text)"

subsection \<open>Regular expressions of the section patterns\<close>

text \<open>The patterns of \<^verbatim>\<open>HEADING_PATTERNS\<close> and \<^verbatim>\<open>INLINE_PRIORITY_PATTERNS\<close> use literals,
  the class \<^verbatim>\<open>[-\s]\<close>, \<^verbatim>\<open>?\<close>, alternation and \<^verbatim>\<open>\b\<close>, all under the flag \<^verbatim>\<open>i\<close>. A literal
  is written in lower case and compared with the lower-cased text.\<close>

datatype regex =
    Lit string
  | DashOrSpace
  | Opt regex
  | Seq regex regex
  | Alt regex regex
  | WordBoundary

definition wordAt :: "string \<Rightarrow> nat \<Rightarrow> bool" where
  "wordAt s i = (i < length s \<and> isWordChar (s ! i))"

definition isBoundary :: "string \<Rightarrow> nat \<Rightarrow> bool" where
  "isBoundary s i = ((i > 0 \<and> wordAt s (i - 1)) \<noteq> wordAt s i)"

text \<open>\<open>matchEnds r s i\<close>: the positions at which a match of \<open>r\<close> that starts at position
  \<open>i\<close> of \<open>s\<close> can end.\<close>

fun matchEnds :: "regex \<Rightarrow> string \<Rightarrow> nat \<Rightarrow> nat list" where
  "matchEnds (Lit p) s i =
     (if i + length p \<le> length s \<and> toLowerCase (take (length p) (drop i s)) = p
      then [i + length p] else [])"
| "matchEnds DashOrSpace s i =
     (if i < length s \<and> (s ! i = CHR ''-'' \<or> isSpace (s ! i)) then [i + 1] else [])"
| "matchEnds (Opt r) s i = matchEnds r s i @ [i]"
| "matchEnds (Seq a b) s i = concat (map (matchEnds b s) (matchEnds a s i))"
| "matchEnds (Alt a b) s i = matchEnds a s i @ matchEnds b s i"
| "matchEnds WordBoundary s i = (if isBoundary s i then [i] else [])"

text \<open>\<^verbatim>\<open>regex.test(line)\<close> of a pattern without the flags \<^verbatim>\<open>g\<close> and \<^verbatim>\<open>y\<close>: some position
  starts a match.\<close>

definition regexTest :: "regex \<Rightarrow> string \<Rightarrow> bool" where
  "regexTest r s = list_ex (\<lambda>i. matchEnds r s i \<noteq> []) [0..<Suc (length s)]"

subsection \<open>Data model\<close>

datatype RequirementTier = Core | Responsibility | Preferred | General

datatype KeywordSource = Term | Phrase

datatype SuggestionType = Add | Expand

record SynonymInfo =
  canonical :: string
  variants :: "string list"

record SectionFragment =
  id_fragment :: nat
  content :: string
  "section" :: RequirementTier

text \<open>\<^verbatim>\<open>Record<RequirementTier, number>\<close>, with its keys in the order of the object
  literal.\<close>

record SectionWeightsRec =
  core :: rat
  responsibility :: rat
  preferred :: rat
  general :: rat

record KeywordStats =
  canonical :: string
  occurrences :: nat
  weightedOccurrences :: rat
  sectionWeights :: SectionWeightsRec
  source :: KeywordSource
  variants :: "string list"
  surfaces :: "(string \<times> nat) list"
  fragmentIds :: "nat list"

text \<open>\<^verbatim>\<open>action\<close> and \<^verbatim>\<open>detail\<close> of a suggestion are templates over \<open>label\<close>,
  \<open>priority\<close> and \<open>weight\<close>.\<close>

record SuggestionInsight =
  canonical :: string
  label :: string
  priority :: RequirementTier
  weight :: int
  "type" :: SuggestionType

record KeywordMatch =
  canonical :: string
  label :: string
  jdOccurrences :: rat
  resumeHits :: nat
  importance :: rat
  "section" :: RequirementTier
  source :: KeywordSource

text \<open>\<^verbatim>\<open>summary\<close> is a template over the three rounded percentages; \<open>None\<close> is the
  text \<^verbatim>\<open>NaN\<close> or \<^verbatim>\<open>Infinity\<close> of a component that divided by zero, likewise for \<^verbatim>\<open>score\<close>.\<close>

record Summary =
  coveragePct :: "int option"
  densityPct :: "int option"
  breadthPct :: "int option"

record KeywordInsight =
  canonical :: string
  label :: string
  occurrences :: rat
  importance :: rat
  "section" :: RequirementTier
  source :: KeywordSource
  variants :: "string list"
  coverage :: rat

record ResumeAnalysis =
  score :: "int option"
  matchedKeywords :: "KeywordMatch list"
  missingKeywords :: "KeywordMatch list"
  summary :: Summary
  suggestions :: "SuggestionInsight list"

subsection \<open>Maps and sets in insertion order\<close>

text \<open>\<^verbatim>\<open>map.get(k)\<close> is \<^const>\<open>map_of\<close>; \<^verbatim>\<open>map.set(k, v)\<close> keeps the position of a key that
  is present and appends a new one.\<close>

fun mapSet :: "('k \<times> 'v) list \<Rightarrow> 'k \<Rightarrow> 'v \<Rightarrow> ('k \<times> 'v) list" where
  "mapSet [] k v = [(k, v)]"
| "mapSet ((k', v') # m) k v = (if k' = k then (k, v) # m else (k', v') # mapSet m k v)"

definition mapHas :: "('k \<times> 'v) list \<Rightarrow> 'k \<Rightarrow> bool" where
  "mapHas m k = (map_of m k \<noteq> None)"

definition setAdd :: "'a list \<Rightarrow> 'a \<Rightarrow> 'a list" where
  "setAdd xs x = (if x \<in> set xs then xs else xs @ [x])"

subsection \<open>Word tables\<close>

definition STOP_WORDS :: "string list" where
  "STOP_WORDS = [''and'', ''the'', ''for'', ''with'', ''that'', ''have'', ''this'', ''from'',
     ''your'', ''will'', ''are'', ''you'', ''our'', ''per'', ''who'', ''any'', ''all'', ''but'',
     ''its'', ''was'', ''were'', ''has'', ''had'', ''can'', ''may'', ''must'', ''into'', ''able'',
     ''make'', ''made'', ''than'', ''over'', ''each'', ''via'', ''very'', ''much'', ''also'',
     ''ever'', ''every'', ''then'', ''once'', ''keep'', ''kept'', ''been'', ''being'',
     ''through'', ''within'', ''between'', ''among'', ''upon'', ''onto'']"

definition CONNECTOR_WORDS :: "string list" where
  "CONNECTOR_WORDS = [''and'', ''or'', ''to'', ''of'', ''in'', ''on'', ''for'', ''with'']"

definition GENERIC_TERMS :: "string list" where
  "GENERIC_TERMS = [''job'', ''jobs'', ''description'', ''descriptions'', ''sample'',
     ''company'', ''companies'', ''organization'', ''organizations'', ''department'',
     ''departments'', ''team'', ''teams'', ''employee'', ''employees'', ''employment'',
     ''human'', ''resource'', ''resources'', ''information'', ''detail'', ''details'',
     ''participation'', ''participate'', ''candidate'', ''candidates'', ''applicant'',
     ''applicants'', ''intern'', ''interns'', ''internship'', ''role'', ''roles'', ''position'',
     ''positions'', ''title'', ''titles'', ''sample job'', ''job description'', ''job title'',
     ''reports'', ''report'', ''gain'']"

fun SECTION_WEIGHTS :: "RequirementTier \<Rightarrow> rat" where
  "SECTION_WEIGHTS Core = 12 / 10"
| "SECTION_WEIGHTS Responsibility = 1"
| "SECTION_WEIGHTS Preferred = 8 / 10"
| "SECTION_WEIGHTS General = 7 / 10"

definition HEADING_PATTERNS :: "(regex \<times> RequirementTier) list" where
  "HEADING_PATTERNS =
    [(Alt (Seq (Lit ''must'') (Seq (Opt DashOrSpace) (Lit ''have'')))
       (Alt (Seq (Lit ''requirement'') (Opt (Lit ''s'')))
         (Alt (Seq (Lit ''qualification'') (Opt (Lit ''s''))) (Lit ''skills''))), Core),
     (Alt (Lit ''responsibilit'')
       (Alt (Lit ''what you will do'')
         (Seq (Lit ''day'') (Seq (Opt DashOrSpace) (Seq (Lit ''to'')
           (Seq (Opt DashOrSpace) (Lit ''day'')))))), Responsibility),
     (Alt (Lit ''preferred'') (Alt (Lit ''nice to have'') (Alt (Lit ''bonus'')
       (Lit ''good to have''))), Preferred)]"

definition INLINE_PRIORITY_PATTERNS :: "(regex \<times> RequirementTier) list" where
  "INLINE_PRIORITY_PATTERNS =
    [(Seq WordBoundary (Seq (Alt (Lit ''must'') (Alt (Lit ''required'')
        (Lit ''required experience''))) WordBoundary), Core),
     (Seq WordBoundary (Seq (Alt (Lit ''preferred'') (Alt (Lit ''nice to have'')
        (Lit ''bonus''))) WordBoundary), Preferred)]"

definition SYNONYM_GROUPS :: "string list list" where
  "SYNONYM_GROUPS =
    [[''project management'', ''program management'', ''project manager'', ''pm''],
     [''stakeholder management'', ''stakeholder engagement''],
     [''change management'', ''organizational change''],
     [''people management'', ''team leadership'', ''direct reports''],
     [''react'', ''react.js'', ''reactjs'', ''react native''],
     [''node'', ''node.js'', ''nodejs''],
     [''customer success'', ''client success'', ''account management''],
     [''business development'', ''sales development'', ''bd''],
     [''data analysis'', ''data analytics'', ''data analyst''],
     [''machine learning'', ''ml'', ''ml ops'', ''mlops''],
     [''artificial intelligence'', ''ai''],
     [''product management'', ''product manager'', ''pm (product)''],
     [''user experience'', ''ux''],
     [''user interface'', ''ui''],
     [''quality assurance'', ''qa'', ''software testing''],
     [''search engine optimization'', ''seo''],
     [''pay per click'', ''ppc''],
     [''human resources'', ''hr''],
     [''talent acquisition'', ''technical recruiting'', ''recruitment'']]"

subsection \<open>Synonym table\<close>

definition buildSynonymMap :: "string list list \<Rightarrow> (string \<times> SynonymInfo) list" where
  "buildSynonymMap groups =
     foldl (\<lambda>lookup group.
       if group = [] then lookup
       else
         (case filter (\<lambda>t. t \<noteq> []) (map normalizeTerm group) of
            [] \<Rightarrow> lookup
          | canon # rest \<Rightarrow>
              let uniqueVariants = foldl setAdd [] (canon # rest);
                  info = \<lparr>SynonymInfo.canonical = canon, SynonymInfo.variants = uniqueVariants\<rparr>
              in foldl (\<lambda>l variant. mapSet l variant info) lookup uniqueVariants))
       [] groups"

definition SYNONYM_LOOKUP :: "(string \<times> SynonymInfo) list" where
  "SYNONYM_LOOKUP = buildSynonymMap SYNONYM_GROUPS"

text \<open>\<^verbatim>\<open>SYNONYM_LOOKUP.has(t)\<close> and \<^verbatim>\<open>SYNONYM_LOOKUP.get(t)\<close>.\<close>

definition synonymHas :: "string \<Rightarrow> bool" where
  "synonymHas t = mapHas SYNONYM_LOOKUP t"

definition synonymGet :: "string \<Rightarrow> SynonymInfo option" where
  "synonymGet t = map_of SYNONYM_LOOKUP t"

definition getCanonicalKey :: "string \<Rightarrow> string" where
  "getCanonicalKey term =
     (let normalized = normalizeTerm term in
      if normalized = [] then []
      else (case synonymGet normalized of
              Some info \<Rightarrow> SynonymInfo.canonical info
            | None \<Rightarrow> normalized))"

definition isFillerWord :: "string \<Rightarrow> bool" where
  "isFillerWord token =
     (if synonymHas token then False
      else token \<in> set STOP_WORDS \<or> token \<in> set GENERIC_TERMS \<or> token \<in> set CONNECTOR_WORDS)"

definition isGenericTerm :: "string \<Rightarrow> bool" where
  "isGenericTerm term =
     (let tokens = filter (\<lambda>t. t \<noteq> []) (splitSpace term) in
      if tokens = [] then True
      else
        let joined = joinSpace tokens in
        if synonymHas joined then False
        else if joined \<in> set GENERIC_TERMS then True
        else
          let fillerCount = length (filter isFillerWord tokens) in
          if fillerCount = length tokens then True
          else if length tokens > 1 \<and>
                  (of_nat fillerCount :: rat) / of_nat (length tokens) \<ge> 6 / 10 then True
          else False)"

definition shouldKeepToken :: "string \<Rightarrow> bool" where
  "shouldKeepToken token =
     (if length token < 3 then False
      else if isFillerWord token then False
      else True)"

subsection \<open>Segmentation and section classification\<close>

text \<open>Both detectors return the section of the first pattern that matches, \<open>None\<close> for
  \<^verbatim>\<open>null\<close>.\<close>

fun firstMatch :: "(regex \<times> RequirementTier) list \<Rightarrow> string \<Rightarrow> RequirementTier option" where
  "firstMatch [] line = None"
| "firstMatch ((r, sec) # ps) line = (if regexTest r line then Some sec else firstMatch ps line)"

definition detectHeadingSection :: "string \<Rightarrow> RequirementTier option" where
  "detectHeadingSection line =
     (if length line > 80 then None else firstMatch HEADING_PATTERNS line)"

definition detectInlinePriority :: "string \<Rightarrow> RequirementTier option" where
  "detectInlinePriority line = firstMatch INLINE_PRIORITY_PATTERNS line"

text \<open>The state of the loop over the lines: the fragments pushed so far, the active
  section and the fragment counter.\<close>

definition fragmentStep ::
  "SectionFragment list \<times> RequirementTier \<times> nat \<Rightarrow> string \<Rightarrow>
   SectionFragment list \<times> RequirementTier \<times> nat" where
  "fragmentStep st line =
     (case st of (fragments, activeSection, fragmentCounter) \<Rightarrow>
        (case detectHeadingSection line of
           Some headingSection \<Rightarrow> (fragments, headingSection, fragmentCounter)
         | None \<Rightarrow>
             (fragments @
                [\<lparr>id_fragment = fragmentCounter, content = line,
                  SectionFragment.section = (case detectInlinePriority line of
                               Some inlineSection \<Rightarrow> inlineSection
                             | None \<Rightarrow> activeSection)\<rparr>],
              activeSection, fragmentCounter + 1)))"

definition splitIntoFragments :: "string \<Rightarrow> SectionFragment list" where
  "splitIntoFragments text =
     (let lines = filter (\<lambda>line. line \<noteq> []) (map trim (splitLines [] text))
      in fst (foldl fragmentStep ([], General, 0) lines))"

subsection \<open>Term and phrase collection\<close>

definition buildPhrase :: "string list \<Rightarrow> nat \<Rightarrow> nat \<Rightarrow> string option" where
  "buildPhrase tokens start len =
     (let slice = take len (drop start tokens) in
      if length slice < len then None
      else if slice = [] then None \<comment> \<open>\<open>len = 0\<close>: no meaningful token, \<^verbatim>\<open>null\<close> below\<close>
      else if isFillerWord (hd slice) \<or> isFillerWord (last slice) then None
      else
        let meaningfulTokens = filter (\<lambda>token. \<not> isFillerWord token) slice;
            requiredMeaningful = (if len = 2 then 1 else min 2 len)
        in
          if meaningfulTokens = [] \<or> length meaningfulTokens < requiredMeaningful then None
          else if list_all (\<lambda>token. token \<in> set STOP_WORDS \<and> token \<notin> set CONNECTOR_WORDS) slice
          then None
          else Some (trim (joinSpace slice)))"

definition addSectionWeight :: "SectionWeightsRec \<Rightarrow> RequirementTier \<Rightarrow> rat \<Rightarrow> SectionWeightsRec" where
  "addSectionWeight sw sec w =
     (case sec of
        Core \<Rightarrow> sw\<lparr>core := core sw + w\<rparr>
      | Responsibility \<Rightarrow> sw\<lparr>responsibility := responsibility sw + w\<rparr>
      | Preferred \<Rightarrow> sw\<lparr>preferred := preferred sw + w\<rparr>
      | General \<Rightarrow> sw\<lparr>general := general sw + w\<rparr>)"

text \<open>\<^verbatim>\<open>sectionWeights[section]\<close>.\<close>

definition getSectionWeight :: "SectionWeightsRec \<Rightarrow> RequirementTier \<Rightarrow> rat" where
  "getSectionWeight sw sec =
     (case sec of
        Core \<Rightarrow> core sw
      | Responsibility \<Rightarrow> responsibility sw
      | Preferred \<Rightarrow> preferred sw
      | General \<Rightarrow> general sw)"

definition newStats :: "string \<Rightarrow> KeywordSource \<Rightarrow> KeywordStats" where
  "newStats canon src =
     \<lparr>KeywordStats.canonical = canon, KeywordStats.occurrences = 0, weightedOccurrences = 0,
      sectionWeights = \<lparr>core = 0, responsibility = 0, preferred = 0, general = 0\<rparr>,
      KeywordStats.source = src, KeywordStats.variants = [], surfaces = [], fragmentIds = []\<rparr>"

definition recordTerm ::
  "string \<Rightarrow> KeywordSource \<Rightarrow> RequirementTier \<Rightarrow> rat \<Rightarrow> nat \<Rightarrow>
   (string \<times> KeywordStats) list \<Rightarrow> (string \<times> KeywordStats) list" where
  "recordTerm term src sec w fragmentId statsMap =
     (let normalized = normalizeTerm term in
      if normalized = [] \<or> length normalized < 3 then statsMap
      else if isGenericTerm normalized then statsMap
      else
        let synonymInfo = synonymGet normalized;
            canon = (case synonymInfo of
                       Some info \<Rightarrow> SynonymInfo.canonical info | None \<Rightarrow> normalized);
            vars = setAdd (foldl setAdd []
                     (case synonymInfo of
                        Some info \<Rightarrow> SynonymInfo.variants info | None \<Rightarrow> [canon])) normalized;
            stats = (case map_of statsMap canon of
                       Some existing \<Rightarrow> existing | None \<Rightarrow> newStats canon src)
        in mapSet statsMap canon
             (stats\<lparr>KeywordStats.occurrences := KeywordStats.occurrences stats + 1,
                    weightedOccurrences := weightedOccurrences stats + w,
                    sectionWeights := addSectionWeight (sectionWeights stats) sec w,
                    KeywordStats.source :=
                      (if KeywordStats.source stats = Phrase \<or> src = Phrase then Phrase else Term),
                    KeywordStats.variants := foldl setAdd (KeywordStats.variants stats) vars,
                    surfaces := mapSet (surfaces stats) term
                      (case map_of (surfaces stats) term of Some n \<Rightarrow> n + 1 | None \<Rightarrow> 1),
                    fragmentIds := setAdd (fragmentIds stats) fragmentId\<rparr>))"

text \<open>The body of the loop of \<^verbatim>\<open>collectTokens\<close>, and the loop.\<close>

definition tokenStep ::
  "RequirementTier \<Rightarrow> rat \<Rightarrow> nat \<Rightarrow> (string \<times> KeywordStats) list \<Rightarrow> string \<Rightarrow>
   (string \<times> KeywordStats) list" where
  "tokenStep sec w fragmentId statsMap token =
     (if \<not> shouldKeepToken token then statsMap
      else recordTerm token Term sec w fragmentId statsMap)"

definition collectTokens ::
  "string list \<Rightarrow> RequirementTier \<Rightarrow> nat \<Rightarrow> (string \<times> KeywordStats) list \<Rightarrow>
   (string \<times> KeywordStats) list" where
  "collectTokens tokens sec fragmentId statsMap =
     (let w = SECTION_WEIGHTS sec in foldl (tokenStep sec w fragmentId) statsMap tokens)"

text \<open>The body of the loop of \<^verbatim>\<open>collectPhrases\<close> at one index, and the loop.\<close>

definition phraseStep ::
  "string list \<Rightarrow> RequirementTier \<Rightarrow> rat \<Rightarrow> nat \<Rightarrow> (string \<times> KeywordStats) list \<Rightarrow> nat \<Rightarrow>
   (string \<times> KeywordStats) list" where
  "phraseStep tokens sec w fragmentId statsMap index =
     (let m1 = (case buildPhrase tokens index 2 of
                  Some bigram \<Rightarrow>
                    if bigram \<noteq> []
                    then recordTerm bigram Phrase sec (w * (11 / 10)) fragmentId statsMap
                    else statsMap
                | None \<Rightarrow> statsMap)
      in (case buildPhrase tokens index 3 of
            Some trigram \<Rightarrow>
              if trigram \<noteq> []
              then recordTerm trigram Phrase sec (w * (115 / 100)) fragmentId m1
              else m1
          | None \<Rightarrow> m1))"

definition collectPhrases ::
  "string list \<Rightarrow> RequirementTier \<Rightarrow> nat \<Rightarrow> (string \<times> KeywordStats) list \<Rightarrow>
   (string \<times> KeywordStats) list" where
  "collectPhrases tokens sec fragmentId statsMap =
     (let w = SECTION_WEIGHTS sec in
      foldl (phraseStep tokens sec w fragmentId) statsMap [0..<length tokens])"

subsection \<open>Statistical scoring and filtering\<close>

text \<open>\<^verbatim>\<open>Object.entries\<close> lists the four buckets in the order of the literal; the stable
  descending sort puts the first largest bucket in front.\<close>

definition getDominantSection :: "SectionWeightsRec \<Rightarrow> RequirementTier" where
  "getDominantSection sw =
     (case sort_key (\<lambda>e. - snd e)
             [(Core, core sw), (Responsibility, responsibility sw),
              (Preferred, preferred sw), (General, general sw)] of
        e # _ \<Rightarrow> fst e
      | [] \<Rightarrow> General)"

definition selectDisplayLabel :: "KeywordStats \<Rightarrow> string" where
  "selectDisplayLabel stats =
     collapseSpaces
       (case sort_key (\<lambda>e. - int (snd e)) (surfaces stats) of
          e # _ \<Rightarrow> fst e
        | [] \<Rightarrow> KeywordStats.canonical stats)"

text \<open>\<^verbatim>\<open>values[i]\<close> outside the array is \<^verbatim>\<open>undefined\<close>, and the arithmetic on it \<^verbatim>\<open>NaN\<close>:
  \<open>None\<close> stands for both.\<close>

definition nthOpt :: "'a list \<Rightarrow> int \<Rightarrow> 'a option" where
  "nthOpt xs i = (if 0 \<le> i \<and> i < int (length xs) then Some (xs ! nat i) else None)"

definition computePercentile :: "rat list \<Rightarrow> rat \<Rightarrow> rat option" where
  "computePercentile values percentile =
     (if values = [] then Some 0
      else
        let index = (of_nat (length values) - 1) * percentile;
            lower = \<lfloor>index\<rfloor>;
            upper = \<lceil>index\<rceil>
        in
          if lower = upper then nthOpt values lower
          else
            let wt = index - of_int lower in
            (case (nthOpt values lower, nthOpt values upper) of
               (Some lo, Some hi) \<Rightarrow> Some (lo * (1 - wt) + hi * wt)
             | _ \<Rightarrow> None))"

text \<open>\<^verbatim>\<open>Number(x.toFixed(3))\<close>: the nearest multiple of \<open>1/1000\<close>, the larger one of two
  nearest in absolute value.\<close>

definition toFixed3 :: "rat \<Rightarrow> rat" where
  "toFixed3 x =
     (if x < 0 then - (of_int \<lfloor>(- x) * 1000 + 1 / 2\<rfloor> / 1000)
      else of_int \<lfloor>x * 1000 + 1 / 2\<rfloor> / 1000)"

text \<open>\<^verbatim>\<open>Math.max(x, ...xs)\<close> of a non-empty argument list.\<close>

definition mathMax :: "rat \<Rightarrow> rat list \<Rightarrow> rat" where
  "mathMax x xs = fold max xs x"

text \<open>\<^verbatim>\<open>xs.slice(0, limit)\<close>: a negative limit counts from the end.\<close>

definition sliceTo :: "'a list \<Rightarrow> int \<Rightarrow> 'a list" where
  "sliceTo xs limit =
     (if limit < 0 then take (nat (int (length xs) + limit)) xs else take (nat limit) xs)"

text \<open>The loop over the fragments that fills \<^verbatim>\<open>statsMap\<close>: its body, and the loop.\<close>

definition fragmentStats ::
  "(string \<times> KeywordStats) list \<Rightarrow> SectionFragment \<Rightarrow> (string \<times> KeywordStats) list" where
  "fragmentStats statsMap fragment =
     (let tokens = tokenize (content fragment) in
      if tokens = [] then statsMap
      else collectPhrases tokens (SectionFragment.section fragment) (id_fragment fragment)
             (collectTokens tokens (SectionFragment.section fragment)
                (id_fragment fragment) statsMap))"

definition buildStatsMap :: "SectionFragment list \<Rightarrow> (string \<times> KeywordStats) list" where
  "buildStatsMap fragments = foldl fragmentStats [] fragments"

text \<open>The callback that turns one accumulator into a \<^verbatim>\<open>KeywordInsight\<close>. Its two divisors
  are not zero in a run of \<^verbatim>\<open>extractKeywords\<close>: the largest weighted count is positive
  (\<open>statsArray_max\<close> below), and the fragment count is \<^verbatim>\<open>Math.max(fragments.length, 1)\<close>.\<close>

definition insightOf :: "rat \<Rightarrow> nat \<Rightarrow> KeywordStats \<Rightarrow> KeywordInsight" where
  "insightOf maxWeighted totalFragments stat =
     (let dominantSection = getDominantSection (sectionWeights stat);
          sectionBoost = SECTION_WEIGHTS dominantSection;
          phraseBoost = (if KeywordStats.source stat = Phrase then 105 / 100 else 1);
          imp = toFixed3 (min (weightedOccurrences stat / maxWeighted * sectionBoost * phraseBoost) 1)
      in \<lparr>KeywordInsight.canonical = KeywordStats.canonical stat,
          KeywordInsight.label = selectDisplayLabel stat,
          KeywordInsight.occurrences = of_nat (KeywordStats.occurrences stat),
          KeywordInsight.importance = imp,
          KeywordInsight.section = dominantSection,
          KeywordInsight.source = KeywordStats.source stat,
          KeywordInsight.variants = sort (KeywordStats.variants stat),
          KeywordInsight.coverage = of_nat (length (fragmentIds stat)) / of_nat totalFragments\<rparr>)"

text \<open>The sorted candidate list \<^verbatim>\<open>keywords\<close> of a non-empty \<^verbatim>\<open>statsArray\<close>.\<close>

definition rankKeywords :: "nat \<Rightarrow> KeywordStats \<Rightarrow> KeywordStats list \<Rightarrow> KeywordInsight list" where
  "rankKeywords totalFragments stat rest =
     (let maxWeighted = mathMax (weightedOccurrences stat) (map weightedOccurrences rest)
      in sort_key (\<lambda>kw. - KeywordInsight.importance kw)
           (map (insightOf maxWeighted totalFragments) (stat # rest)))"

text \<open>The first refinement: the coverage filter.\<close>

definition refineCoverage :: "KeywordInsight list \<Rightarrow> KeywordInsight list" where
  "refineCoverage keywords =
     (let coverageThreshold = 45 / 100 in
      if length keywords > 10 then
        let coverageFiltered = filter (\<lambda>keyword. KeywordInsight.coverage keyword \<le> coverageThreshold
                                  \<or> KeywordInsight.importance keyword \<ge> 4 / 10) keywords
        in if length coverageFiltered \<ge> 5 then coverageFiltered else keywords
      else keywords)"

text \<open>The second refinement: the percentile filter. A threshold \<^verbatim>\<open>NaN\<close> keeps nothing.\<close>

definition refinePercentile :: "KeywordInsight list \<Rightarrow> KeywordInsight list" where
  "refinePercentile refined =
     (if length refined > 12 then
        let importanceValues = sort_key (\<lambda>v. v) (map KeywordInsight.importance refined);
            percentileFiltered =
              (case computePercentile importanceValues (25 / 100) of
                 Some percentileFloor \<Rightarrow>
                   let importanceThreshold = max percentileFloor (25 / 100)
                   in filter (\<lambda>kw. KeywordInsight.importance kw \<ge> importanceThreshold) refined
               | None \<Rightarrow> [])
        in if length percentileFiltered \<ge> 5 then percentileFiltered else refined
      else refined)"

definition extractKeywords :: "string \<Rightarrow> int \<Rightarrow> KeywordInsight list" where
  "extractKeywords text limit =
     (let fragments = splitIntoFragments text;
          totalFragments = max (length fragments) 1;
          statsArray = map snd (buildStatsMap fragments)
      in case statsArray of
           [] \<Rightarrow> []
         | stat # rest \<Rightarrow>
             let keywords = rankKeywords totalFragments stat rest;
                 refined = refinePercentile (refineCoverage keywords);
                 refined = (if refined = [] then keywords else refined)
             in sliceTo refined limit)"

text \<open>The candidate list \<^verbatim>\<open>keywords\<close> of a text, as it stands before the two refinements;
  \<open>extractKeywords_candidates\<close> below relates it to \<^verbatim>\<open>extractKeywords\<close>.\<close>

definition candidateKeywords :: "string \<Rightarrow> KeywordInsight list" where
  "candidateKeywords text =
     (let fragments = splitIntoFragments text in
      case map snd (buildStatsMap fragments) of
        [] \<Rightarrow> []
      | stat # rest \<Rightarrow> rankKeywords (max (length fragments) 1) stat rest)"

text \<open>The invariant of the accumulator map: one entry per canonical key, filed under its
  own key, with a positive weighted count.\<close>

definition statsInv :: "(string \<times> KeywordStats) list \<Rightarrow> bool" where
  "statsInv m \<longleftrightarrow> distinct (map fst m) \<and>
     list_all (\<lambda>e. KeywordStats.canonical (snd e) = fst e \<and> 0 < weightedOccurrences (snd e)) m"

subsection \<open>Resume matching and score aggregation\<close>

text \<open>\<^verbatim>\<open>counts.set(key, (counts.get(key) ?? 0) + 1)\<close>.\<close>

definition bumpCount :: "(string \<times> nat) list \<Rightarrow> string \<Rightarrow> (string \<times> nat) list" where
  "bumpCount counts key =
     mapSet counts key ((case map_of counts key of Some n \<Rightarrow> n | None \<Rightarrow> 0) + 1)"

text \<open>The loop runs over \<open>index = 0, \<dots>, tokens.length - size\<close> and not at all when the
  difference is negative. The function is called with the sizes 1, 2 and 3, for which the
  slice at every index of the loop is not empty.\<close>

definition ngramStep :: "string list \<Rightarrow> nat \<Rightarrow> (string \<times> nat) list \<Rightarrow> nat \<Rightarrow> (string \<times> nat) list" where
  "ngramStep tokens sz counts index =
     (case take sz (drop index tokens) of
        [] \<Rightarrow> counts
      | first # _ \<Rightarrow>
          if sz = 1 \<and> \<not> shouldKeepToken first then counts
          else if sz > 1 then
            (case buildPhrase tokens index sz of
               None \<Rightarrow> counts
             | Some phrase \<Rightarrow>
                 if phrase = [] then counts
                 else bumpCount counts (getCanonicalKey phrase))
          else bumpCount counts (getCanonicalKey first))"

definition buildNgramCounts :: "string list \<Rightarrow> nat \<Rightarrow> (string \<times> nat) list" where
  "buildNgramCounts tokens sz =
     foldl (ngramStep tokens sz) []
       (if sz \<le> length tokens then [0..<Suc (length tokens - sz)] else [])"

text \<open>\<^verbatim>\<open>Math.round\<close>: the nearest integer, the larger one of two nearest.\<close>

definition mathRound :: "rat \<Rightarrow> int" where
  "mathRound x = \<lfloor>x + 1 / 2\<rfloor>"

text \<open>The callback that pairs a keyword with its hit count in the resume.\<close>

definition matchOf ::
  "(string \<times> nat) list \<Rightarrow> (string \<times> nat) list \<Rightarrow> (string \<times> nat) list \<Rightarrow>
   KeywordInsight \<Rightarrow> KeywordMatch" where
  "matchOf unigramCounts bigramCounts trigramCounts kw =
     (let tokenLength = length (splitSpace (KeywordInsight.canonical kw));
          sourceCounts = (if tokenLength = 1 then unigramCounts
                          else if tokenLength = 2 then bigramCounts
                          else trigramCounts);
          hits = (case map_of sourceCounts (KeywordInsight.canonical kw) of
                    Some n \<Rightarrow> n | None \<Rightarrow> 0)
      in \<lparr>KeywordMatch.canonical = KeywordInsight.canonical kw,
          KeywordMatch.label = KeywordInsight.label kw,
          jdOccurrences = KeywordInsight.occurrences kw,
          resumeHits = hits,
          KeywordMatch.importance = KeywordInsight.importance kw,
          KeywordMatch.section = KeywordInsight.section kw,
          KeywordMatch.source = KeywordInsight.source kw\<rparr>)"

definition keywordMatchesOf :: "string \<Rightarrow> KeywordInsight list \<Rightarrow> KeywordMatch list" where
  "keywordMatchesOf resumeText keywords =
     (let resumeTokens = tokenize resumeText;
          unigramCounts = buildNgramCounts resumeTokens 1;
          bigramCounts = buildNgramCounts resumeTokens 2;
          trigramCounts = buildNgramCounts resumeTokens 3
      in map (matchOf unigramCounts bigramCounts trigramCounts) keywords)"

text \<open>\<^verbatim>\<open>keywords.reduce((sum, kw) => sum + kw.importance, 0) || 1\<close>.\<close>

definition totalImportance :: "KeywordInsight list \<Rightarrow> rat" where
  "totalImportance keywords =
     (let total = foldl (\<lambda>sum kw. sum + KeywordInsight.importance kw) 0 keywords
      in if total = 0 then 1 else total)"

text \<open>The three score components are quotients. In the code a zero divisor does not
  raise: it yields \<^verbatim>\<open>NaN\<close> or an infinity, which then reaches the score. \<open>None\<close> stands for
  such a value, so that a division by zero shows in the result.\<close>

definition jsDivide :: "rat \<Rightarrow> rat \<Rightarrow> rat option" where
  "jsDivide x y = (if y = 0 then None else Some (x / y))"

definition coverageScore :: "KeywordMatch list \<Rightarrow> KeywordInsight list \<Rightarrow> rat option" where
  "coverageScore matched keywords =
     jsDivide (foldl (\<lambda>sum m. sum + KeywordMatch.importance m) 0 matched)
       (totalImportance keywords)"

text \<open>One summand of the density:
  \<^verbatim>\<open>Math.min(match.resumeHits / Math.max(match.jdOccurrences, 1), 1)\<close>.\<close>

definition densityTerm :: "KeywordMatch \<Rightarrow> rat option" where
  "densityTerm m =
     (case jsDivide (of_nat (resumeHits m)) (max (jdOccurrences m) 1) of
        Some q \<Rightarrow> Some (min q 1)
      | None \<Rightarrow> None)"

definition densityScore :: "KeywordMatch list \<Rightarrow> KeywordInsight list \<Rightarrow> rat option" where
  "densityScore matched keywords =
     (case foldl (\<lambda>sum m. case (sum, densityTerm m) of
                             (Some t, Some d) \<Rightarrow> Some (t + d)
                           | _ \<Rightarrow> None)
             (Some 0) matched of
        Some acc \<Rightarrow> jsDivide acc (of_nat (max (length keywords) 1))
      | None \<Rightarrow> None)"

definition breadthScore :: "KeywordMatch list \<Rightarrow> KeywordInsight list \<Rightarrow> rat option" where
  "breadthScore matched keywords =
     jsDivide (of_nat (length matched)) (of_nat (max (length keywords) 1))"

definition buildSummary :: "rat option \<Rightarrow> rat option \<Rightarrow> rat option \<Rightarrow> Summary" where
  "buildSummary cov dens brd =
     \<lparr>coveragePct = map_option (\<lambda>c. mathRound (c * 100)) cov,
      densityPct = map_option (\<lambda>d. mathRound (d * 100)) dens,
      breadthPct = map_option (\<lambda>b. mathRound (b * 100)) brd\<rparr>"

definition suggestionOf :: "SuggestionType \<Rightarrow> KeywordMatch \<Rightarrow> SuggestionInsight" where
  "suggestionOf ty m =
     \<lparr>SuggestionInsight.canonical = KeywordMatch.canonical m,
      SuggestionInsight.label = KeywordMatch.label m,
      priority = KeywordMatch.section m,
      weight = mathRound (KeywordMatch.importance m * 100),
      type = ty\<rparr>"

definition buildSuggestions :: "KeywordMatch list \<Rightarrow> KeywordMatch list \<Rightarrow> SuggestionInsight list" where
  "buildSuggestions missing matched =
     (let prioritizedMissing = take 5 (sort_key (\<lambda>m. - KeywordMatch.importance m) missing);
          enrichmentTargets =
            take 2 (filter (\<lambda>m. resumeHits m > 0 \<and> of_nat (resumeHits m) < jdOccurrences m) matched)
      in map (suggestionOf Add) prioritizedMissing @ map (suggestionOf Expand) enrichmentTargets)"

definition analyzeResume :: "string \<Rightarrow> KeywordInsight list \<Rightarrow> ResumeAnalysis" where
  "analyzeResume resumeText keywords =
     (let keywordMatches = keywordMatchesOf resumeText keywords;
          matched = filter (\<lambda>m. resumeHits m > 0) keywordMatches;
          missing = filter (\<lambda>m. resumeHits m = 0) keywordMatches;
          cov = coverageScore matched keywords;
          dens = densityScore matched keywords;
          brd = breadthScore matched keywords;
          finalScore =
            (case (cov, dens, brd) of
               (Some c, Some d, Some b) \<Rightarrow>
                 Some (mathRound ((c * (6 / 10) + d * (3 / 10) + b * (1 / 10)) * 100))
             | _ \<Rightarrow> None)
      in \<lparr>score = map_option (\<lambda>f. min f 100) finalScore,
          matchedKeywords = matched,
          missingKeywords = missing,
          summary = buildSummary cov dens brd,
          suggestions = buildSuggestions missing matched\<rparr>)"

subsection \<open>Auxiliary notions of the proofs\<close>

text \<open>A character of a phrase of tokens: a token character or the joining space.\<close>

definition plainChar :: "char \<Rightarrow> bool" where
  "plainChar c \<longleftrightarrow> isTokenCont c \<or> c = CHR '' ''"

text \<open>The body of the loop of \<^verbatim>\<open>buildNgramCounts\<close> for size 1, as a function of the token,
  and the count that a table holds for a key (\<^verbatim>\<open>counts.get(key) ?? 0\<close>).\<close>

definition unigramStep :: "(string \<times> nat) list \<Rightarrow> string \<Rightarrow> (string \<times> nat) list" where
  "unigramStep counts token =
     (if shouldKeepToken token then bumpCount counts (getCanonicalKey token) else counts)"

definition countOf :: "(string \<times> nat) list \<Rightarrow> string \<Rightarrow> nat" where
  "countOf counts key = (case map_of counts key of Some n \<Rightarrow> n | None \<Rightarrow> 0)"

subsection \<open>The scenario text\<close>

text \<open>The job description of the tier scenario: one line of 112 characters.\<close>

definition scenarioJD :: string where
  "scenarioJD = ''Requirements: Must have React experience. Responsibilities: Lead agile ceremonies. Preferred: AWS certification.''"

section \<open>Evaluation inside the logic\<close>

text \<open>Concrete runs of the model are evaluated by rewriting with the code equations. The
  equations below decide equality of strings and membership in a list from the left and
  stop at the first difference.\<close>

lemma equal_list_lazy [code]:
  "HOL.equal ([] :: 'a :: equal list) [] \<longleftrightarrow> True"
  "HOL.equal ([] :: 'a :: equal list) (y # ys) \<longleftrightarrow> False"
  "HOL.equal (x # xs) ([] :: 'a :: equal list) \<longleftrightarrow> False"
  "HOL.equal (x # xs) (y # ys) \<longleftrightarrow> (if HOL.equal x y then HOL.equal xs ys else False)"
  by (simp_all add: equal)

lemma member_lazy [code]:
  "List.member [] y \<longleftrightarrow> False"
  "List.member (x # xs) y \<longleftrightarrow> (if x = y then True else List.member xs y)"
  by (simp_all add: List.member_code)

lemma equal_char_lazy [code]:
  "HOL.equal (Char a0 a1 a2 a3 a4 a5 a6 a7) (Char b0 b1 b2 b3 b4 b5 b6 b7) \<longleftrightarrow>
     (if a0 = b0 then if a1 = b1 then if a2 = b2 then if a3 = b3 then
      if a4 = b4 then if a5 = b5 then if a6 = b6 then a7 = b7
      else False else False else False else False else False else False else False)"
  by (simp add: equal)

text \<open>The table that \<^verbatim>\<open>buildSynonymMap()\<close> returns for \<^verbatim>\<open>SYNONYM_GROUPS\<close>, computed once.\<close>

lemma SYNONYM_LOOKUP_table [code]:
  "SYNONYM_LOOKUP =
    [(''project management'', \<lparr>SynonymInfo.canonical = ''project management'',
       SynonymInfo.variants = [''project management'', ''program management'', ''project manager'', ''pm'']\<rparr>),
     (''program management'', \<lparr>SynonymInfo.canonical = ''project management'',
       SynonymInfo.variants = [''project management'', ''program management'', ''project manager'', ''pm'']\<rparr>),
     (''project manager'', \<lparr>SynonymInfo.canonical = ''project management'',
       SynonymInfo.variants = [''project management'', ''program management'', ''project manager'', ''pm'']\<rparr>),
     (''pm'', \<lparr>SynonymInfo.canonical = ''project management'',
       SynonymInfo.variants = [''project management'', ''program management'', ''project manager'', ''pm'']\<rparr>),
     (''stakeholder management'', \<lparr>SynonymInfo.canonical = ''stakeholder management'',
       SynonymInfo.variants = [''stakeholder management'', ''stakeholder engagement'']\<rparr>),
     (''stakeholder engagement'', \<lparr>SynonymInfo.canonical = ''stakeholder management'',
       SynonymInfo.variants = [''stakeholder management'', ''stakeholder engagement'']\<rparr>),
     (''change management'', \<lparr>SynonymInfo.canonical = ''change management'',
       SynonymInfo.variants = [''change management'', ''organizational change'']\<rparr>),
     (''organizational change'', \<lparr>SynonymInfo.canonical = ''change management'',
       SynonymInfo.variants = [''change management'', ''organizational change'']\<rparr>),
     (''people management'', \<lparr>SynonymInfo.canonical = ''people management'',
       SynonymInfo.variants = [''people management'', ''team leadership'', ''direct reports'']\<rparr>),
     (''team leadership'', \<lparr>SynonymInfo.canonical = ''people management'',
       SynonymInfo.variants = [''people management'', ''team leadership'', ''direct reports'']\<rparr>),
     (''direct reports'', \<lparr>SynonymInfo.canonical = ''people management'',
       SynonymInfo.variants = [''people management'', ''team leadership'', ''direct reports'']\<rparr>),
     (''react'', \<lparr>SynonymInfo.canonical = ''react'',
       SynonymInfo.variants = [''react'', ''react js'', ''reactjs'', ''react native'']\<rparr>),
     (''react js'', \<lparr>SynonymInfo.canonical = ''react'',
       SynonymInfo.variants = [''react'', ''react js'', ''reactjs'', ''react native'']\<rparr>),
     (''reactjs'', \<lparr>SynonymInfo.canonical = ''react'',
       SynonymInfo.variants = [''react'', ''react js'', ''reactjs'', ''react native'']\<rparr>),
     (''react native'', \<lparr>SynonymInfo.canonical = ''react'',
       SynonymInfo.variants = [''react'', ''react js'', ''reactjs'', ''react native'']\<rparr>),
     (''node'', \<lparr>SynonymInfo.canonical = ''node'',
       SynonymInfo.variants = [''node'', ''node js'', ''nodejs'']\<rparr>),
     (''node js'', \<lparr>SynonymInfo.canonical = ''node'',
       SynonymInfo.variants = [''node'', ''node js'', ''nodejs'']\<rparr>),
     (''nodejs'', \<lparr>SynonymInfo.canonical = ''node'',
       SynonymInfo.variants = [''node'', ''node js'', ''nodejs'']\<rparr>),
     (''customer success'', \<lparr>SynonymInfo.canonical = ''customer success'',
       SynonymInfo.variants = [''customer success'', ''client success'', ''account management'']\<rparr>),
     (''client success'', \<lparr>SynonymInfo.canonical = ''customer success'',
       SynonymInfo.variants = [''customer success'', ''client success'', ''account management'']\<rparr>),
     (''account management'', \<lparr>SynonymInfo.canonical = ''customer success'',
       SynonymInfo.variants = [''customer success'', ''client success'', ''account management'']\<rparr>),
     (''business development'', \<lparr>SynonymInfo.canonical = ''business development'',
       SynonymInfo.variants = [''business development'', ''sales development'', ''bd'']\<rparr>),
     (''sales development'', \<lparr>SynonymInfo.canonical = ''business development'',
       SynonymInfo.variants = [''business development'', ''sales development'', ''bd'']\<rparr>),
     (''bd'', \<lparr>SynonymInfo.canonical = ''business development'',
       SynonymInfo.variants = [''business development'', ''sales development'', ''bd'']\<rparr>),
     (''data analysis'', \<lparr>SynonymInfo.canonical = ''data analysis'',
       SynonymInfo.variants = [''data analysis'', ''data analytics'', ''data analyst'']\<rparr>),
     (''data analytics'', \<lparr>SynonymInfo.canonical = ''data analysis'',
       SynonymInfo.variants = [''data analysis'', ''data analytics'', ''data analyst'']\<rparr>),
     (''data analyst'', \<lparr>SynonymInfo.canonical = ''data analysis'',
       SynonymInfo.variants = [''data analysis'', ''data analytics'', ''data analyst'']\<rparr>),
     (''machine learning'', \<lparr>SynonymInfo.canonical = ''machine learning'',
       SynonymInfo.variants = [''machine learning'', ''ml'', ''ml ops'', ''mlops'']\<rparr>),
     (''ml'', \<lparr>SynonymInfo.canonical = ''machine learning'',
       SynonymInfo.variants = [''machine learning'', ''ml'', ''ml ops'', ''mlops'']\<rparr>),
     (''ml ops'', \<lparr>SynonymInfo.canonical = ''machine learning'',
       SynonymInfo.variants = [''machine learning'', ''ml'', ''ml ops'', ''mlops'']\<rparr>),
     (''mlops'', \<lparr>SynonymInfo.canonical = ''machine learning'',
       SynonymInfo.variants = [''machine learning'', ''ml'', ''ml ops'', ''mlops'']\<rparr>),
     (''artificial intelligence'', \<lparr>SynonymInfo.canonical = ''artificial intelligence'',
       SynonymInfo.variants = [''artificial intelligence'', ''ai'']\<rparr>),
     (''ai'', \<lparr>SynonymInfo.canonical = ''artificial intelligence'',
       SynonymInfo.variants = [''artificial intelligence'', ''ai'']\<rparr>),
     (''product management'', \<lparr>SynonymInfo.canonical = ''product management'',
       SynonymInfo.variants = [''product management'', ''product manager'', ''pm product'']\<rparr>),
     (''product manager'', \<lparr>SynonymInfo.canonical = ''product management'',
       SynonymInfo.variants = [''product management'', ''product manager'', ''pm product'']\<rparr>),
     (''pm product'', \<lparr>SynonymInfo.canonical = ''product management'',
       SynonymInfo.variants = [''product management'', ''product manager'', ''pm product'']\<rparr>),
     (''user experience'', \<lparr>SynonymInfo.canonical = ''user experience'',
       SynonymInfo.variants = [''user experience'', ''ux'']\<rparr>),
     (''ux'', \<lparr>SynonymInfo.canonical = ''user experience'',
       SynonymInfo.variants = [''user experience'', ''ux'']\<rparr>),
     (''user interface'', \<lparr>SynonymInfo.canonical = ''user interface'',
       SynonymInfo.variants = [''user interface'', ''ui'']\<rparr>),
     (''ui'', \<lparr>SynonymInfo.canonical = ''user interface'',
       SynonymInfo.variants = [''user interface'', ''ui'']\<rparr>),
     (''quality assurance'', \<lparr>SynonymInfo.canonical = ''quality assurance'',
       SynonymInfo.variants = [''quality assurance'', ''qa'', ''software testing'']\<rparr>),
     (''qa'', \<lparr>SynonymInfo.canonical = ''quality assurance'',
       SynonymInfo.variants = [''quality assurance'', ''qa'', ''software testing'']\<rparr>),
     (''software testing'', \<lparr>SynonymInfo.canonical = ''quality assurance'',
       SynonymInfo.variants = [''quality assurance'', ''qa'', ''software testing'']\<rparr>),
     (''search engine optimization'', \<lparr>SynonymInfo.canonical = ''search engine optimization'',
       SynonymInfo.variants = [''search engine optimization'', ''seo'']\<rparr>),
     (''seo'', \<lparr>SynonymInfo.canonical = ''search engine optimization'',
       SynonymInfo.variants = [''search engine optimization'', ''seo'']\<rparr>),
     (''pay per click'', \<lparr>SynonymInfo.canonical = ''pay per click'',
       SynonymInfo.variants = [''pay per click'', ''ppc'']\<rparr>),
     (''ppc'', \<lparr>SynonymInfo.canonical = ''pay per click'',
       SynonymInfo.variants = [''pay per click'', ''ppc'']\<rparr>),
     (''human resources'', \<lparr>SynonymInfo.canonical = ''human resources'',
       SynonymInfo.variants = [''human resources'', ''hr'']\<rparr>),
     (''hr'', \<lparr>SynonymInfo.canonical = ''human resources'',
       SynonymInfo.variants = [''human resources'', ''hr'']\<rparr>),
     (''talent acquisition'', \<lparr>SynonymInfo.canonical = ''talent acquisition'',
       SynonymInfo.variants = [''talent acquisition'', ''technical recruiting'', ''recruitment'']\<rparr>),
     (''technical recruiting'', \<lparr>SynonymInfo.canonical = ''talent acquisition'',
       SynonymInfo.variants = [''talent acquisition'', ''technical recruiting'', ''recruitment'']\<rparr>),
     (''recruitment'', \<lparr>SynonymInfo.canonical = ''talent acquisition'',
       SynonymInfo.variants = [''talent acquisition'', ''technical recruiting'', ''recruitment'']\<rparr>)]"
  by code_simp

lemma SYNONYM_LOOKUP_keys:
  "map fst SYNONYM_LOOKUP =
     [''project management'', ''program management'', ''project manager'', ''pm'',
      ''stakeholder management'', ''stakeholder engagement'', ''change management'',
      ''organizational change'', ''people management'', ''team leadership'',
      ''direct reports'', ''react'', ''react js'', ''reactjs'', ''react native'', ''node'',
      ''node js'', ''nodejs'', ''customer success'', ''client success'',
      ''account management'', ''business development'', ''sales development'', ''bd'',
      ''data analysis'', ''data analytics'', ''data analyst'', ''machine learning'',
      ''ml'', ''ml ops'', ''mlops'', ''artificial intelligence'', ''ai'',
      ''product management'', ''product manager'', ''pm product'', ''user experience'',
      ''ux'', ''user interface'', ''ui'', ''quality assurance'', ''qa'',
      ''software testing'', ''search engine optimization'', ''seo'', ''pay per click'',
      ''ppc'', ''human resources'', ''hr'', ''talent acquisition'',
      ''technical recruiting'', ''recruitment'']"
  unfolding SYNONYM_LOOKUP_table by simp

lemma synonymHas_code [code]:
  "synonymHas t \<longleftrightarrow> t \<in> set
     [''project management'', ''program management'', ''project manager'', ''pm'',
      ''stakeholder management'', ''stakeholder engagement'', ''change management'',
      ''organizational change'', ''people management'', ''team leadership'',
      ''direct reports'', ''react'', ''react js'', ''reactjs'', ''react native'', ''node'',
      ''node js'', ''nodejs'', ''customer success'', ''client success'',
      ''account management'', ''business development'', ''sales development'', ''bd'',
      ''data analysis'', ''data analytics'', ''data analyst'', ''machine learning'',
      ''ml'', ''ml ops'', ''mlops'', ''artificial intelligence'', ''ai'',
      ''product management'', ''product manager'', ''pm product'', ''user experience'',
      ''ux'', ''user interface'', ''ui'', ''quality assurance'', ''qa'',
      ''software testing'', ''search engine optimization'', ''seo'', ''pay per click'',
      ''ppc'', ''human resources'', ''hr'', ''talent acquisition'',
      ''technical recruiting'', ''recruitment'']"
  unfolding synonymHas_def mapHas_def SYNONYM_LOOKUP_keys [symmetric]
  by (simp add: map_of_eq_None_iff)

lemma synonymGet_code [code]:
  "synonymGet t = (if synonymHas t then map_of SYNONYM_LOOKUP t else None)"
  by (simp add: synonymGet_def synonymHas_def mapHas_def)

section \<open>Resume scoring: partition and empty keyword list\<close>

lemma mathRound_zero: "mathRound 0 = 0"
  by (simp add: mathRound_def floor_eq_iff)

lemma keywordMatchesOf_length: "length (keywordMatchesOf resumeText keywords) = length keywords"
  by (simp add: keywordMatchesOf_def Let_def)

text \<open>
  Claim C7. For every resume text, \<^verbatim>\<open>analyzeResume(resumeText, [])\<close> performs no division by
  zero: each of the three quotients (coverage, density, breadth) is defined, and equals 0.
  The score is defined and equals 0, and \<^verbatim>\<open>matchedKeywords\<close>, \<^verbatim>\<open>missingKeywords\<close> and
  \<^verbatim>\<open>suggestions\<close> are empty.
\<close>

theorem analyzeResume_empty_keywords:
  "coverageScore (matchedKeywords (analyzeResume resumeText [])) [] = Some 0
   \<and> densityScore (matchedKeywords (analyzeResume resumeText [])) [] = Some 0
   \<and> breadthScore (matchedKeywords (analyzeResume resumeText [])) [] = Some 0
   \<and> score (analyzeResume resumeText []) = Some 0
   \<and> summary (analyzeResume resumeText [])
       = \<lparr>coveragePct = Some 0, densityPct = Some 0, breadthPct = Some 0\<rparr>
   \<and> matchedKeywords (analyzeResume resumeText []) = []
   \<and> missingKeywords (analyzeResume resumeText []) = []
   \<and> suggestions (analyzeResume resumeText []) = []"
  by (simp add: analyzeResume_def keywordMatchesOf_def totalImportance_def coverageScore_def
      densityScore_def breadthScore_def buildSuggestions_def buildSummary_def jsDivide_def
      mathRound_zero Let_def)

text \<open>
  Claim C4. For every call \<^verbatim>\<open>analyzeResume(resumeText, keywords)\<close> the lists
  \<^verbatim>\<open>matchedKeywords\<close> and \<^verbatim>\<open>missingKeywords\<close> partition the input: their lengths add up to
  \<^verbatim>\<open>keywords.length\<close>, every matched entry has \<^verbatim>\<open>resumeHits > 0\<close>, every missing entry has
  \<^verbatim>\<open>resumeHits == 0\<close>; together they hold exactly the match entries, which are the
  keywords in their order.
\<close>

theorem analyzeResume_partition:
  "length (matchedKeywords (analyzeResume resumeText keywords))
     + length (missingKeywords (analyzeResume resumeText keywords)) = length keywords
   \<and> (\<forall>m \<in> set (matchedKeywords (analyzeResume resumeText keywords)). resumeHits m > 0)
   \<and> (\<forall>m \<in> set (missingKeywords (analyzeResume resumeText keywords)). resumeHits m = 0)
   \<and> set (matchedKeywords (analyzeResume resumeText keywords))
       \<union> set (missingKeywords (analyzeResume resumeText keywords))
       = set (keywordMatchesOf resumeText keywords)
   \<and> map KeywordMatch.canonical (keywordMatchesOf resumeText keywords)
       = map KeywordInsight.canonical keywords"
proof -
  let ?ms = "keywordMatchesOf resumeText keywords"
  have m: "matchedKeywords (analyzeResume resumeText keywords) = filter (\<lambda>m. resumeHits m > 0) ?ms"
    by (simp add: analyzeResume_def Let_def)
  have n: "missingKeywords (analyzeResume resumeText keywords)
             = filter (\<lambda>m. \<not> resumeHits m > 0) ?ms"
    by (simp add: analyzeResume_def Let_def)
  have "length (filter (\<lambda>m. resumeHits m > 0) ?ms)
          + length (filter (\<lambda>m. \<not> resumeHits m > 0) ?ms) = length ?ms"
    by (rule sum_length_filter_compl)
  moreover have "map KeywordMatch.canonical ?ms = map KeywordInsight.canonical keywords"
    by (simp add: keywordMatchesOf_def matchOf_def Let_def)
  ultimately show ?thesis
    unfolding m n by (auto simp: keywordMatchesOf_length)
qed

text \<open>The partition at the resume \<open>react\<close> and the keywords \<open>react\<close> and \<open>aws\<close>: one entry
  on each side.\<close>

theorem analyzeResume_partition_witness:
  "matchedKeywords (analyzeResume ''react''
      [\<lparr>KeywordInsight.canonical = ''react'', label = ''React'', occurrences = 1, importance = 1,
        section = Core, source = Term, variants = [''react''], coverage = 1\<rparr>,
       \<lparr>KeywordInsight.canonical = ''aws'', label = ''AWS'', occurrences = 1, importance = 1 / 2,
        section = Preferred, source = Term, variants = [''aws''], coverage = 1\<rparr>]) \<noteq> []
   \<and> missingKeywords (analyzeResume ''react''
      [\<lparr>KeywordInsight.canonical = ''react'', label = ''React'', occurrences = 1, importance = 1,
        section = Core, source = Term, variants = [''react''], coverage = 1\<rparr>,
       \<lparr>KeywordInsight.canonical = ''aws'', label = ''AWS'', occurrences = 1, importance = 1 / 2,
        section = Preferred, source = Term, variants = [''aws''], coverage = 1\<rparr>]) \<noteq> []
   \<and> 0 < resumeHits (hd (matchedKeywords (analyzeResume ''react''
      [\<lparr>KeywordInsight.canonical = ''react'', label = ''React'', occurrences = 1, importance = 1,
        section = Core, source = Term, variants = [''react''], coverage = 1\<rparr>,
       \<lparr>KeywordInsight.canonical = ''aws'', label = ''AWS'', occurrences = 1, importance = 1 / 2,
        section = Preferred, source = Term, variants = [''aws''], coverage = 1\<rparr>])))
   \<and> resumeHits (hd (missingKeywords (analyzeResume ''react''
      [\<lparr>KeywordInsight.canonical = ''react'', label = ''React'', occurrences = 1, importance = 1,
        section = Core, source = Term, variants = [''react''], coverage = 1\<rparr>,
       \<lparr>KeywordInsight.canonical = ''aws'', label = ''AWS'', occurrences = 1, importance = 1 / 2,
        section = Preferred, source = Term, variants = [''aws''], coverage = 1\<rparr>]))) = 0"
proof -
  let ?ks = "[\<lparr>KeywordInsight.canonical = ''react'', label = ''React'', occurrences = 1,
        importance = 1, section = Core, source = Term, variants = [''react''], coverage = 1\<rparr>,
       \<lparr>KeywordInsight.canonical = ''aws'', label = ''AWS'', occurrences = 1, importance = 1 / 2,
        section = Preferred, source = Term, variants = [''aws''], coverage = 1\<rparr>]"
  have a: "matchedKeywords (analyzeResume ''react'' ?ks) \<noteq> []"
    by code_simp
  have b: "missingKeywords (analyzeResume ''react'' ?ks) \<noteq> []"
    by code_simp
  from a b analyzeResume_partition [of "''react''" ?ks] show ?thesis
    by (metis hd_in_set)
qed

section \<open>Keyword extraction: the accumulator map\<close>

subsection \<open>Maps in insertion order\<close>

lemma map_of_mapSet: "map_of (mapSet m k v) = (map_of m)(k \<mapsto> v)"
  by (induction m k v rule: mapSet.induct) (auto simp: fun_eq_iff)

lemma keys_mapSet:
  "map fst (mapSet m k v) = (if k \<in> fst ` set m then map fst m else map fst m @ [k])"
  by (induction m k v rule: mapSet.induct) (auto simp: image_iff)

lemma distinct_keys_mapSet: "distinct (map fst m) \<Longrightarrow> distinct (map fst (mapSet m k v))"
  by (simp add: keys_mapSet)

lemma set_mapSet_subset: "set (mapSet m k v) \<subseteq> insert (k, v) (set m)"
  by (induction m k v rule: mapSet.induct) auto

lemma mapSet_nonempty: "mapSet m k v \<noteq> []"
  by (induction m k v rule: mapSet.induct) auto

subsection \<open>The accumulator map\<close>

lemma statsInv_Nil: "statsInv []"
  by (simp add: statsInv_def)

lemma statsInv_mapSet:
  assumes "statsInv m" "KeywordStats.canonical st = k" "0 < weightedOccurrences st"
  shows "statsInv (mapSet m k st)"
proof -
  have "set (mapSet m k st) \<subseteq> insert (k, st) (set m)"
    by (rule set_mapSet_subset)
  with assms show ?thesis
    by (auto simp: statsInv_def distinct_keys_mapSet list_all_iff)
qed

lemma statsInv_lookup:
  "statsInv m \<Longrightarrow> map_of m k = Some st \<Longrightarrow> KeywordStats.canonical st = k \<and> 0 < weightedOccurrences st"
  by (auto simp: statsInv_def list_all_iff dest!: map_of_SomeD)

lemma newStats_sel:
  "KeywordStats.canonical (newStats c src) = c" "weightedOccurrences (newStats c src) = 0"
  by (simp_all add: newStats_def)

lemma recordTerm_cases:
  assumes "statsInv m" "0 < w"
  shows "recordTerm t src sec w fid m = m \<or>
    (\<exists>c st. recordTerm t src sec w fid m = mapSet m c st \<and> KeywordStats.canonical st = c
       \<and> 0 < weightedOccurrences st)"
proof -
  define c where "c = (case synonymGet (normalizeTerm t) of
      Some info \<Rightarrow> SynonymInfo.canonical info | None \<Rightarrow> normalizeTerm t)"
  define st where "st = (case map_of m c of Some existing \<Rightarrow> existing | None \<Rightarrow> newStats c src)"
  define st' where "st' = st\<lparr>KeywordStats.occurrences := KeywordStats.occurrences st + 1,
      weightedOccurrences := weightedOccurrences st + w,
      sectionWeights := addSectionWeight (sectionWeights st) sec w,
      KeywordStats.source :=
        (if KeywordStats.source st = Phrase \<or> src = Phrase then Phrase else Term),
      KeywordStats.variants := foldl setAdd (KeywordStats.variants st)
        (setAdd (foldl setAdd []
           (case synonymGet (normalizeTerm t) of
              Some info \<Rightarrow> SynonymInfo.variants info | None \<Rightarrow> [c])) (normalizeTerm t)),
      surfaces := mapSet (surfaces st) t
        (case map_of (surfaces st) t of Some n \<Rightarrow> n + 1 | None \<Rightarrow> 1),
      fragmentIds := setAdd (fragmentIds st) fid\<rparr>"
  have st: "KeywordStats.canonical st = c" "0 \<le> weightedOccurrences st"
    using assms(1) statsInv_lookup [of m c]
    by (auto simp: st_def newStats_sel split: option.splits)
  have st': "KeywordStats.canonical st' = c" "0 < weightedOccurrences st'"
    using st assms(2) by (simp_all add: st'_def)
  have "recordTerm t src sec w fid m = m \<or> recordTerm t src sec w fid m = mapSet m c st'"
    unfolding recordTerm_def Let_def c_def [symmetric] st_def [symmetric] st'_def
    by simp
  with st' show ?thesis
    by blast
qed

lemma statsInv_recordTerm:
  assumes "statsInv m" "0 < w"
  shows "statsInv (recordTerm t src sec w fid m)"
  using recordTerm_cases [OF assms, of t src sec fid] assms(1)
  by (auto simp: statsInv_mapSet)

lemma SECTION_WEIGHTS_pos: "0 < SECTION_WEIGHTS sec"
  by (cases sec) simp_all

lemma statsInv_collectTokens: "statsInv m \<Longrightarrow> statsInv (collectTokens tokens sec fid m)"
proof -
  have "statsInv m \<Longrightarrow> statsInv (foldl (tokenStep sec (SECTION_WEIGHTS sec) fid) m ts)" for ts
    by (induction ts arbitrary: m)
      (auto simp: tokenStep_def statsInv_recordTerm SECTION_WEIGHTS_pos)
  then show "statsInv m \<Longrightarrow> statsInv (collectTokens tokens sec fid m)"
    by (simp add: collectTokens_def Let_def)
qed

lemma statsInv_phraseStep:
  "statsInv m \<Longrightarrow> statsInv (phraseStep tokens sec (SECTION_WEIGHTS sec) fid m i)"
  unfolding phraseStep_def Let_def
  by (auto split: option.splits intro!: statsInv_recordTerm simp: SECTION_WEIGHTS_pos)

lemma statsInv_collectPhrases: "statsInv m \<Longrightarrow> statsInv (collectPhrases tokens sec fid m)"
proof -
  have "statsInv m \<Longrightarrow> statsInv (foldl (phraseStep tokens sec (SECTION_WEIGHTS sec) fid) m is)"
    for "is"
    by (induction "is" arbitrary: m) (auto simp: statsInv_phraseStep)
  then show "statsInv m \<Longrightarrow> statsInv (collectPhrases tokens sec fid m)"
    by (simp add: collectPhrases_def Let_def)
qed

lemma statsInv_fragmentStats: "statsInv m \<Longrightarrow> statsInv (fragmentStats m fragment)"
  by (simp add: fragmentStats_def Let_def statsInv_collectTokens statsInv_collectPhrases)

lemma statsInv_buildStatsMap: "statsInv (buildStatsMap fragments)"
proof -
  have "statsInv m \<Longrightarrow> statsInv (foldl fragmentStats m fragments)" for m
    by (induction fragments arbitrary: m) (auto simp: statsInv_fragmentStats)
  then show ?thesis
    by (simp add: buildStatsMap_def statsInv_Nil)
qed

section \<open>Keyword extraction: ranking and the two refinements\<close>

lemma sliceTo_Nil: "sliceTo [] limit = []"
  by (simp add: sliceTo_def)

lemma refineCoverage_Nil: "refineCoverage [] = []"
  by (simp add: refineCoverage_def)

lemma refinePercentile_Nil: "refinePercentile [] = []"
  by (simp add: refinePercentile_def)

lemma extractKeywords_candidates:
  "extractKeywords text limit =
     (let keywords = candidateKeywords text;
          refined = refinePercentile (refineCoverage keywords)
      in sliceTo (if refined = [] then keywords else refined) limit)"
proof (cases "map snd (buildStatsMap (splitIntoFragments text))")
  case Nil
  then have "extractKeywords text limit = []" "candidateKeywords text = []"
    by (simp_all add: extractKeywords_def candidateKeywords_def Let_def)
  then show ?thesis
    by (simp add: sliceTo_Nil refineCoverage_Nil refinePercentile_Nil)
next
  case (Cons stat rest)
  then show ?thesis
    by (simp add: extractKeywords_def candidateKeywords_def Let_def)
qed

lemma mathMax_Max: "mathMax x xs = Max (set (x # xs))"
  unfolding mathMax_def by (rule Max.set_eq_fold [symmetric])

lemma set_rankKeywords:
  "set (rankKeywords n stat rest) =
     insightOf (mathMax (weightedOccurrences stat) (map weightedOccurrences rest)) n ` set (stat # rest)"
  by (simp only: rankKeywords_def Let_def set_sort set_map)

lemma canonical_insightOf [simp]:
  "KeywordInsight.canonical (insightOf mw n st) = KeywordStats.canonical st"
  by (simp add: insightOf_def Let_def)

lemma distinct_map_sort_key:
  "distinct (map f (sort_key g xs)) \<longleftrightarrow> distinct (map f xs)"
  by (simp add: distinct_map)

lemma distinct_rankKeywords:
  assumes "distinct (map KeywordStats.canonical (stat # rest))"
  shows "distinct (map KeywordInsight.canonical (rankKeywords n stat rest))"
proof -
  have "map KeywordInsight.canonical (map (insightOf mw n) xs) = map KeywordStats.canonical xs"
    for mw xs
    by simp
  with assms show ?thesis
    unfolding rankKeywords_def Let_def distinct_map_sort_key
    by (simp only:)
qed

lemma statsInv_canonical: "statsInv m \<Longrightarrow> map KeywordStats.canonical (map snd m) = map fst m"
  by (induction m) (auto simp: statsInv_def)

lemma distinct_candidates: "distinct (map KeywordInsight.canonical (candidateKeywords text))"
proof (cases "map snd (buildStatsMap (splitIntoFragments text))")
  case Nil
  then show ?thesis
    by (simp add: candidateKeywords_def)
next
  case (Cons stat rest)
  let ?m = "buildStatsMap (splitIntoFragments text)"
  have inv: "statsInv ?m"
    by (rule statsInv_buildStatsMap)
  then have "distinct (map KeywordStats.canonical (map snd ?m))"
    by (simp only: statsInv_canonical) (simp add: statsInv_def)
  then have "distinct (map KeywordStats.canonical (stat # rest))"
    by (simp only: Cons)
  then have "distinct (map KeywordInsight.canonical
      (rankKeywords (max (length (splitIntoFragments text)) 1) stat rest))"
    by (rule distinct_rankKeywords)
  then show ?thesis
    by (simp only: candidateKeywords_def Let_def Cons list.case)
qed

lemma refineCoverage_cases:
  "refineCoverage ks = ks \<or> refineCoverage ks = filter (\<lambda>keyword. KeywordInsight.coverage keyword \<le> 45 / 100
                                  \<or> KeywordInsight.importance keyword \<ge> 4 / 10) ks"
  by (simp add: refineCoverage_def Let_def)

lemma refinePercentile_cases:
  "refinePercentile ks = ks \<or>
     (\<exists>thr. refinePercentile ks = filter (\<lambda>kw. KeywordInsight.importance kw \<ge> thr) ks
        \<and> 5 \<le> length (filter (\<lambda>kw. KeywordInsight.importance kw \<ge> thr) ks))"
proof (cases "computePercentile (sort_key (\<lambda>v. v) (map KeywordInsight.importance ks)) (25 / 100)")
  case None
  then show ?thesis
    by (simp add: refinePercentile_def Let_def)
next
  case (Some p)
  show ?thesis
  proof (cases "12 < length ks \<and>
      5 \<le> length (filter (\<lambda>kw. KeywordInsight.importance kw \<ge> max p (25 / 100)) ks)")
    case True
    with Some have "refinePercentile ks = filter (\<lambda>kw. KeywordInsight.importance kw \<ge> max p (25 / 100)) ks"
      by (simp add: refinePercentile_def Let_def del: max.bounded_iff)
    with True show ?thesis
      by blast
  next
    case False
    with Some have "refinePercentile ks = ks"
      by (auto simp add: refinePercentile_def Let_def simp del: max.bounded_iff)
    then show ?thesis ..
  qed
qed

lemma distinct_map_take: "distinct (map f xs) \<Longrightarrow> distinct (map f (take n xs))"
  by (simp add: take_map [symmetric])

lemma distinct_sliceTo: "distinct (map f xs) \<Longrightarrow> distinct (map f (sliceTo xs limit))"
  by (simp add: sliceTo_def distinct_map_take)

lemma distinct_refineCoverage: "distinct (map f ks) \<Longrightarrow> distinct (map f (refineCoverage ks))"
  using refineCoverage_cases [of ks] by (auto simp: distinct_map_filter)

lemma distinct_refinePercentile: "distinct (map f ks) \<Longrightarrow> distinct (map f (refinePercentile ks))"
  using refinePercentile_cases [of ks] by (auto simp: distinct_map_filter)

text \<open>
  Claim C10. For every input text and limit, the list returned by \<^verbatim>\<open>extractKeywords\<close> has
  pairwise distinct canonical keys: all occurrences with the same canonical key are merged
  into one accumulator of \<^verbatim>\<open>statsMap\<close>, and sorting, filtering and slicing keep the keys
  distinct.
\<close>

theorem extractKeywords_distinct_canonical:
  "distinct (map KeywordInsight.canonical (extractKeywords text limit))"
proof -
  let ?ks = "candidateKeywords text"
  have "distinct (map KeywordInsight.canonical ?ks)"
    by (rule distinct_candidates)
  moreover from this have "distinct (map KeywordInsight.canonical (refinePercentile (refineCoverage ?ks)))"
    by (intro distinct_refinePercentile distinct_refineCoverage)
  ultimately show ?thesis
    unfolding extractKeywords_candidates Let_def
    by (simp add: distinct_sliceTo)
qed

section \<open>Keyword extraction: importance and the top-ranked candidate\<close>

subsection \<open>Importance of a candidate\<close>

lemma toFixed3_nonneg: "0 \<le> x \<Longrightarrow> toFixed3 x = of_int \<lfloor>x * 1000 + 1 / 2\<rfloor> / 1000"
  by (simp add: toFixed3_def)

lemma toFixed3_mono_ge:
  assumes "of_int n / 1000 \<le> x" "0 \<le> x"
  shows "of_int n / 1000 \<le> toFixed3 x"
proof -
  have "of_int n \<le> x * 1000 + 1 / 2"
    using assms(1) by (simp add: field_simps)
  then have "n \<le> \<lfloor>x * 1000 + 1 / 2\<rfloor>"
    by (simp add: le_floor_iff)
  then have "(of_int n :: rat) \<le> of_int \<lfloor>x * 1000 + 1 / 2\<rfloor>"
    by simp
  then show ?thesis
    using assms(2) by (simp add: toFixed3_nonneg divide_right_mono)
qed

lemma getDominantSection_max:
  "getSectionWeight sw t \<le> getSectionWeight sw (getDominantSection sw)"
proof -
  let ?es = "[(Core, core sw), (Responsibility, responsibility sw),
              (Preferred, preferred sw), (General, general sw)]"
  let ?ss = "sort_key (\<lambda>e. - snd e) ?es"
  have len: "length ?ss = 4"
    by (simp only: length_sort) simp
  then obtain e rest where ss: "?ss = e # rest"
    by (cases ?ss) auto
  have dom: "getDominantSection sw = fst e"
    by (simp only: getDominantSection_def ss list.case)
  have "sorted (map (\<lambda>e. - snd e) ?ss)"
    by (rule sorted_sort_key)
  then have le: "\<forall>x \<in> set ?ss. snd x \<le> snd e"
    by (simp only: ss) auto
  have mem: "set ?ss = set ?es"
    by (rule set_sort)
  have e: "e \<in> set ?es"
    using mem ss by (metis list.set_intros(1))
  have all: "\<forall>x \<in> set ?es. snd x \<le> snd e"
    using le mem by simp
  have val: "getSectionWeight sw (fst x) = snd x" if "x \<in> set ?es" for x
    using that by (auto simp: getSectionWeight_def)
  have "(t, getSectionWeight sw t) \<in> set ?es"
    by (cases t) (simp_all add: getSectionWeight_def)
  with all have "getSectionWeight sw t \<le> snd e"
    by fastforce
  with val [OF e] dom show ?thesis
    by simp
qed

lemma SECTION_WEIGHTS_ge: "7 / 10 \<le> SECTION_WEIGHTS sec"
  by (cases sec) simp_all

lemma SECTION_WEIGHTS_cases:
  "SECTION_WEIGHTS sec = (case sec of Core \<Rightarrow> 12 / 10 | Responsibility \<Rightarrow> 1
     | Preferred \<Rightarrow> 8 / 10 | General \<Rightarrow> 7 / 10)"
  by (cases sec) simp_all

lemma insightOf_sel:
  "KeywordInsight.section (insightOf mw n st) = getDominantSection (sectionWeights st)"
  "KeywordInsight.source (insightOf mw n st) = KeywordStats.source st"
  "KeywordInsight.importance (insightOf mw n st) =
     toFixed3 (min (weightedOccurrences st / mw
       * SECTION_WEIGHTS (getDominantSection (sectionWeights st))
       * (if KeywordStats.source st = Phrase then 105 / 100 else 1)) 1)"
  by (simp_all add: insightOf_def Let_def)

text \<open>The candidates are the insights of the accumulators, relative to the largest
  weighted count, which is positive.\<close>

lemma candidateKeywords_set:
  assumes "k \<in> set (candidateKeywords text)"
  shows "\<exists>st \<in> set (map snd (buildStatsMap (splitIntoFragments text))).
     k = insightOf (Max (weightedOccurrences ` set (map snd (buildStatsMap (splitIntoFragments text)))))
           (max (length (splitIntoFragments text)) 1) st"
proof (cases "map snd (buildStatsMap (splitIntoFragments text))")
  case Nil
  with assms show ?thesis
    by (simp add: candidateKeywords_def)
next
  case (Cons stat rest)
  have "mathMax (weightedOccurrences stat) (map weightedOccurrences rest)
      = Max (weightedOccurrences ` set (stat # rest))"
    by (simp only: mathMax_Max set_map [symmetric] list.map)
  moreover from assms have "k \<in> set (rankKeywords (max (length (splitIntoFragments text)) 1) stat rest)"
    by (simp only: candidateKeywords_def Let_def Cons list.case)
  ultimately show ?thesis
    unfolding set_rankKeywords Cons by auto
qed

lemma statsArray_weights_pos:
  "st \<in> set (map snd (buildStatsMap fragments)) \<Longrightarrow> 0 < weightedOccurrences st"
  using statsInv_buildStatsMap [of fragments]
  by (auto simp: statsInv_def list_all_iff)

lemma statsArray_max:
  assumes "st \<in> set (map snd (buildStatsMap fragments))"
  shows "weightedOccurrences st \<le> Max (weightedOccurrences ` set (map snd (buildStatsMap fragments)))"
    and "0 < Max (weightedOccurrences ` set (map snd (buildStatsMap fragments)))"
proof -
  show le: "weightedOccurrences st \<le> Max (weightedOccurrences ` set (map snd (buildStatsMap fragments)))"
    using assms by (intro Max_ge) auto
  from statsArray_weights_pos [OF assms] le
  show "0 < Max (weightedOccurrences ` set (map snd (buildStatsMap fragments)))"
    by simp
qed

lemma set_sliceTo: "set (sliceTo xs limit) \<subseteq> set xs"
  by (auto simp: sliceTo_def dest: in_set_takeD)

lemma set_refineCoverage: "set (refineCoverage ks) \<subseteq> set ks"
  using refineCoverage_cases [of ks] by auto

lemma set_refinePercentile: "set (refinePercentile ks) \<subseteq> set ks"
  using refinePercentile_cases [of ks] by auto

lemma extractKeywords_unfold:
  "extractKeywords text limit =
     sliceTo (if refinePercentile (refineCoverage (candidateKeywords text)) = []
              then candidateKeywords text
              else refinePercentile (refineCoverage (candidateKeywords text))) limit"
  by (simp only: extractKeywords_candidates Let_def)

lemma set_refined: "set (refinePercentile (refineCoverage ks)) \<subseteq> set ks"
  by (rule order_trans [OF set_refinePercentile set_refineCoverage])

lemma extractKeywords_subset: "set (extractKeywords text limit) \<subseteq> set (candidateKeywords text)"
proof (cases "refinePercentile (refineCoverage (candidateKeywords text)) = []")
  case True
  then have "extractKeywords text limit = sliceTo (candidateKeywords text) limit"
    by (simp add: extractKeywords_unfold)
  then show ?thesis
    by (simp only: set_sliceTo)
next
  case False
  then have "extractKeywords text limit
      = sliceTo (refinePercentile (refineCoverage (candidateKeywords text))) limit"
    by (simp add: extractKeywords_unfold)
  then show ?thesis
    using set_sliceTo [of "refinePercentile (refineCoverage (candidateKeywords text))" limit]
      set_refined [of "candidateKeywords text"]
    by (metis order_trans)
qed

subsection \<open>The top-ranked candidate\<close>

lemma rankKeywords_sorted:
  "sorted (map (\<lambda>kw. - KeywordInsight.importance kw) (rankKeywords n stat rest))"
  by (simp only: rankKeywords_def Let_def sorted_sort_key)

lemma candidateKeywords_sorted:
  "sorted (map (\<lambda>kw. - KeywordInsight.importance kw) (candidateKeywords text))"
  by (cases "map snd (buildStatsMap (splitIntoFragments text))")
    (simp_all only: candidateKeywords_def Let_def list.case rankKeywords_sorted list.map sorted_simps)

lemma sorted_desc_hd:
  assumes "sorted (map (\<lambda>kw. - KeywordInsight.importance kw) ks)" "k \<in> set ks"
  shows "KeywordInsight.importance k \<le> KeywordInsight.importance (hd ks)"
proof (cases ks)
  case Nil
  with assms(2) show ?thesis by simp
next
  case (Cons a as)
  with assms show ?thesis by auto
qed

text \<open>The accumulator with the largest weighted count has importance at least \<open>0.7\<close>.\<close>

lemma insightOf_max_importance:
  assumes "0 < mw" "weightedOccurrences st = mw"
  shows "7 / 10 \<le> KeywordInsight.importance (insightOf mw n st)"
proof -
  let ?sb = "SECTION_WEIGHTS (getDominantSection (sectionWeights st))"
  let ?pb = "if KeywordStats.source st = Phrase then 105 / 100 else (1 :: rat)"
  have "7 / 10 \<le> ?sb"
    by (rule SECTION_WEIGHTS_ge)
  moreover have "1 \<le> ?pb"
    by simp
  moreover have "0 \<le> ?sb"
    using SECTION_WEIGHTS_pos [of "getDominantSection (sectionWeights st)"] by simp
  ultimately have "7 / 10 * 1 \<le> ?sb * ?pb"
    by (intro mult_mono) simp_all
  then have "7 / 10 \<le> min (weightedOccurrences st / mw * ?sb * ?pb) 1"
    using assms by simp
  then have ge: "of_int 700 / 1000 \<le> min (weightedOccurrences st / mw * ?sb * ?pb) 1"
    by simp
  then have "0 \<le> min (weightedOccurrences st / mw * ?sb * ?pb) 1"
    by (rule order_trans [rotated]) simp
  with ge have "of_int 700 / 1000 \<le> toFixed3 (min (weightedOccurrences st / mw * ?sb * ?pb) 1)"
    by (rule toFixed3_mono_ge)
  then show ?thesis
    by (simp add: insightOf_sel)
qed

lemma candidateKeywords_top_importance:
  assumes "candidateKeywords text \<noteq> []"
  shows "7 / 10 \<le> KeywordInsight.importance (hd (candidateKeywords text))"
proof -
  let ?stats = "map snd (buildStatsMap (splitIntoFragments text))"
  let ?mw = "Max (weightedOccurrences ` set ?stats)"
  let ?n = "max (length (splitIntoFragments text)) 1"
  from assms obtain stat rest where sr: "?stats = stat # rest"
    by (cases ?stats) (auto simp: candidateKeywords_def)
  then have ne: "weightedOccurrences ` set ?stats \<noteq> {}"
    by simp
  have "?mw \<in> weightedOccurrences ` set ?stats"
    using ne by (intro Max_in) simp_all
  then obtain st where st: "st \<in> set ?stats" "weightedOccurrences st = ?mw"
    by (metis imageE)
  have mw: "0 < ?mw"
    by (rule statsArray_max(2) [OF st(1)])
  have "mathMax (weightedOccurrences stat) (map weightedOccurrences rest) = ?mw"
    by (simp only: mathMax_Max sr set_map [symmetric] list.map)
  then have "candidateKeywords text = rankKeywords ?n stat rest"
    "set (rankKeywords ?n stat rest) = insightOf ?mw ?n ` set ?stats"
    by (simp_all only: candidateKeywords_def Let_def sr list.case set_rankKeywords)
  then have mem: "insightOf ?mw ?n st \<in> set (candidateKeywords text)"
    using st(1) by simp
  have "7 / 10 \<le> KeywordInsight.importance (insightOf ?mw ?n st)"
    by (rule insightOf_max_importance [OF mw st(2)])
  also have "\<dots> \<le> KeywordInsight.importance (hd (candidateKeywords text))"
    by (rule sorted_desc_hd [OF candidateKeywords_sorted mem])
  finally show ?thesis .
qed

lemma hd_filter_keep: "xs \<noteq> [] \<Longrightarrow> P (hd xs) \<Longrightarrow> hd (filter P xs) = hd xs \<and> filter P xs \<noteq> []"
  by (cases xs) auto

lemma refineCoverage_hd:
  assumes "ks \<noteq> []" "4 / 10 \<le> KeywordInsight.importance (hd ks)"
  shows "hd (refineCoverage ks) = hd ks \<and> refineCoverage ks \<noteq> []"
proof -
  let ?P = "\<lambda>keyword. KeywordInsight.coverage keyword \<le> 45 / 100
              \<or> KeywordInsight.importance keyword \<ge> 4 / 10"
  have "?P (hd ks)"
    using assms(2) by simp
  then have "hd (filter ?P ks) = hd ks \<and> filter ?P ks \<noteq> []"
    by (rule hd_filter_keep [OF assms(1)])
  with refineCoverage_cases [of ks] assms(1) show ?thesis
    by metis
qed

text \<open>The percentile filter keeps the first entry of a list that is sorted by descending
  importance: a threshold above the largest importance empties the filtered list, and a
  filtered list of fewer than five entries is discarded.\<close>

lemma refinePercentile_hd:
  assumes "ks \<noteq> []" "\<forall>k \<in> set ks. KeywordInsight.importance k \<le> KeywordInsight.importance (hd ks)"
  shows "hd (refinePercentile ks) = hd ks \<and> refinePercentile ks \<noteq> []"
proof -
  consider "refinePercentile ks = ks"
    | thr where "refinePercentile ks = filter (\<lambda>kw. KeywordInsight.importance kw \<ge> thr) ks"
        "5 \<le> length (filter (\<lambda>kw. KeywordInsight.importance kw \<ge> thr) ks)"
    using refinePercentile_cases [of ks] by blast
  then show ?thesis
  proof cases
    case 1
    with assms(1) show ?thesis by simp
  next
    case 2
    from 2(2) have "filter (\<lambda>kw. KeywordInsight.importance kw \<ge> thr) ks \<noteq> []"
      by auto
    then obtain k where "k \<in> set ks" "thr \<le> KeywordInsight.importance k"
      by (metis (mono_tags, lifting) filter_False)
    with assms(2) have "thr \<le> KeywordInsight.importance (hd ks)"
      by (meson order_trans)
    with assms(1) 2(1) show ?thesis
      by (simp add: hd_filter_keep)
  qed
qed

lemma sliceTo_hd:
  assumes "xs \<noteq> []" "1 \<le> limit"
  shows "hd (sliceTo xs limit) = hd xs \<and> hd xs \<in> set (sliceTo xs limit)"
proof -
  from assms(2) obtain n where n: "nat limit = Suc n"
    by (cases "nat limit") auto
  with assms show ?thesis
    by (cases xs) (auto simp: sliceTo_def)
qed


section \<open>Keyword extraction: blank text\<close>

lemma set_stripCR: "set (stripCR s) \<subseteq> set s"
  by (auto simp: stripCR_def dest: in_set_butlastD)

lemma splitLines_chars:
  "l \<in> set (splitLines cur s) \<Longrightarrow> set l \<subseteq> set cur \<union> set s"
proof (induction s arbitrary: cur)
  case Nil
  then show ?case by simp
next
  case (Cons c cs)
  show ?case
  proof (cases "c = CHR 0x0A")
    case True
    with Cons.prems have "l = stripCR cur \<or> l \<in> set (splitLines [] cs)"
      by simp
    then show ?thesis
      using set_stripCR [of cur] Cons.IH [of "[]"] by auto
  next
    case False
    with Cons.prems have "l \<in> set (splitLines (cur @ [c]) cs)"
      by simp
    from Cons.IH [OF this] show ?thesis
      by auto
  qed
qed

lemma trim_blank:
  assumes "\<forall>c \<in> set l. isSpace c"
  shows "trim l = []"
proof -
  from assms have "dropWhile isSpace l = []"
    by (induction l) auto
  then show ?thesis
    by (simp only: trim_def rev.simps dropWhile.simps)
qed

lemma blank_lines:
  assumes "\<forall>c \<in> set s. isSpace c"
  shows "filter (\<lambda>line. line \<noteq> []) (map trim (splitLines [] s)) = []"
proof -
  have "trim l = []" if "l \<in> set (splitLines [] s)" for l
    using splitLines_chars [OF that] assms by (intro trim_blank) auto
  then show ?thesis
    by (simp add: filter_empty_conv)
qed

lemma splitIntoFragments_blank:
  "\<forall>c \<in> set s. isSpace c \<Longrightarrow> splitIntoFragments s = []"
  by (simp add: splitIntoFragments_def blank_lines)

text \<open>
  Claim C8. For every input string that consists only of white space, the empty string
  included, and every limit, \<^verbatim>\<open>extractKeywords\<close> returns the empty sequence; the embedding
  of the function is total, and no step on this path can fail.
\<close>

theorem extractKeywords_blank:
  assumes "\<forall>c \<in> set s. isSpace c"
  shows "extractKeywords s limit = []"
  using assms
  by (simp add: extractKeywords_def splitIntoFragments_blank buildStatsMap_def)

theorem extractKeywords_blank_witness:
  "extractKeywords [CHR 0x20, CHR 0x0A, CHR 0x09, CHR 0x0D, CHR 0x0A, CHR 0x20] 5 = []
   \<and> extractKeywords [] 28 = []"
proof -
  have "\<forall>c \<in> set [CHR 0x20, CHR 0x0A, CHR 0x09, CHR 0x0D, CHR 0x0A, CHR 0x20]. isSpace c"
    by (simp add: isSpace_def)
  moreover have "\<forall>c \<in> set ([] :: string). isSpace c"
    by simp
  ultimately show ?thesis
    using extractKeywords_blank by blast
qed

section \<open>Resume scoring: keys of the n-gram tables\<close>

subsection \<open>Characters of tokens\<close>

lemma isTokenCont_cases:
  "isTokenCont c \<Longrightarrow> c \<in> set ''abcdefghijklmnopqrstuvwxyz0123456789+#-/''"
  by (auto simp: isTokenCont_def isTokenStart_def isLowerAlnum_def)

lemma isTokenCont_props:
  assumes "isTokenCont c"
  shows "\<not> isSpace c" "isTermChar c" "lowerChar c = c" "c \<noteq> CHR '' ''"
  using isTokenCont_cases [OF assms]
  by (auto simp: isSpace_def isTermChar_def isLowerAlnum_def lowerChar_def upperChars_def)

lemma matchTokens_chars: "t \<in> set (matchTokens s) \<Longrightarrow> \<forall>c \<in> set t. isTokenCont c"
proof (induction s arbitrary: t rule: matchTokens.induct)
  case 1
  then show ?case by simp
next
  case (2 c cs)
  show ?case
  proof (cases "isTokenStart c")
    case True
    with "2.prems" have "t = c # takeWhile isTokenCont cs \<or> t \<in> set (matchTokens (dropWhile isTokenCont cs))"
      by simp
    then show ?thesis
    proof
      assume "t = c # takeWhile isTokenCont cs"
      with True show ?thesis
        by (auto simp: isTokenCont_def dest: set_takeWhileD)
    next
      assume "t \<in> set (matchTokens (dropWhile isTokenCont cs))"
      with "2.IH"(1) [OF True] show ?thesis by blast
    qed
  next
    case False
    with "2.prems" have "t \<in> set (matchTokens cs)" by simp
    with "2.IH"(2) [OF False] show ?thesis by blast
  qed
qed

lemma tokenize_chars: "t \<in> set (tokenize s) \<Longrightarrow> \<forall>c \<in> set t. isTokenCont c"
  by (simp add: tokenize_def matchTokens_chars)


subsection \<open>Counting spaces\<close>

text \<open>The number of pieces of \<^verbatim>\<open>s.split(' ')\<close> is the number of spaces of \<open>s\<close> plus one.\<close>

lemma length_splitOn: "length (splitOn d cur s) = Suc (length (filter (\<lambda>c. c = d) s))"
  by (induction s arbitrary: cur) auto

lemma length_splitSpace: "length (splitSpace s) = Suc (length (filter (\<lambda>c. c = CHR '' '') s))"
  by (simp add: splitSpace_def length_splitOn)

lemma filter_dropWhile_le: "length (filter P (dropWhile Q xs)) \<le> length (filter P xs)"
  by (induction xs) auto

lemma filter_trim_le: "length (filter P (trim s)) \<le> length (filter P s)"
proof -
  have "length (filter P (trim s)) = length (filter P (dropWhile isSpace (rev (dropWhile isSpace s))))"
    by (simp add: trim_def rev_filter [symmetric])
  also have "\<dots> \<le> length (filter P (rev (dropWhile isSpace s)))"
    by (rule filter_dropWhile_le)
  also have "\<dots> = length (filter P (dropWhile isSpace s))"
    by (simp add: rev_filter [symmetric])
  also have "\<dots> \<le> length (filter P s)"
    by (rule filter_dropWhile_le)
  finally show ?thesis .
qed

lemma collapseSpaces_spaces:
  "length (filter (\<lambda>c. c = CHR '' '') (collapseSpaces s)) \<le> length (filter isSpace s)"
proof (induction s rule: collapseSpaces.induct)
  case 1
  then show ?case by simp
next
  case (2 c cs)
  show ?case
  proof (cases "isSpace c")
    case True
    have "length (filter isSpace (dropWhile isSpace cs)) \<le> length (filter isSpace cs)"
      by (rule filter_dropWhile_le)
    with "2.IH"(1) [OF True] True show ?thesis
      by simp
  next
    case False
    then have "c \<noteq> CHR '' ''"
      by (auto simp: isSpace_def)
    with "2.IH"(2) [OF False] False show ?thesis
      by simp
  qed
qed

lemma replaceForeign_id: "\<forall>c \<in> set s. isTermChar c \<Longrightarrow> replaceForeign s = s"
  by (induction s rule: replaceForeign.induct) auto

lemma plainChar_props: "plainChar c \<Longrightarrow> isTermChar c \<and> lowerChar c = c"
  by (auto simp: plainChar_def isTokenCont_props)
    (simp_all add: isTermChar_def isSpace_def lowerChar_def upperChars_def)

lemma plainChar_space: "plainChar c \<Longrightarrow> isSpace c \<longleftrightarrow> c = CHR '' ''"
  using isTokenCont_props(1,4) [of c] by (auto simp: plainChar_def isSpace_def)

text \<open>A phrase of tokens joined by single spaces is left as it is by \<^verbatim>\<open>normalizeTerm\<close>, up
  to the final \<^verbatim>\<open>trim\<close>; normalising it cannot add a space.\<close>

lemma normalizeTerm_spaces:
  assumes "\<forall>c \<in> set p. plainChar c"
  shows "length (filter (\<lambda>c. c = CHR '' '') (normalizeTerm p))
           \<le> length (filter (\<lambda>c. c = CHR '' '') p)"
proof -
  have low: "toLowerCase p = p"
    using assms by (simp add: toLowerCase_def plainChar_props map_idI)
  have rep: "replaceForeign p = p"
    using assms by (intro replaceForeign_id) (simp add: plainChar_props)
  have sp: "filter isSpace p = filter (\<lambda>c. c = CHR '' '') p"
    using assms by (intro filter_cong) (auto simp: plainChar_space)
  have "length (filter (\<lambda>c. c = CHR '' '') (normalizeTerm p))
      \<le> length (filter (\<lambda>c. c = CHR '' '') (collapseSpaces p))"
    by (simp add: normalizeTerm_def low rep filter_trim_le)
  also have "\<dots> \<le> length (filter isSpace p)"
    by (rule collapseSpaces_spaces)
  finally show ?thesis
    by (simp add: sp)
qed

lemma joinSpace_plain:
  "\<forall>t \<in> set ts. \<forall>c \<in> set t. isTokenCont c \<Longrightarrow> \<forall>c \<in> set (joinSpace ts). plainChar c"
  by (induction ts rule: joinSpace.induct) (auto simp: plainChar_def)

lemma joinSpace_spaces:
  "\<forall>t \<in> set ts. \<forall>c \<in> set t. isTokenCont c \<Longrightarrow>
   length (filter (\<lambda>c. c = CHR '' '') (joinSpace ts)) = length ts - 1"
proof (induction ts rule: joinSpace.induct)
  case 1
  then show ?case by simp
next
  case (2 x)
  then have "filter (\<lambda>c. c = CHR '' '') x = []"
    by (auto simp: filter_empty_conv dest: isTokenCont_props(4))
  then show ?case by simp
next
  case (3 x y ys)
  then have "filter (\<lambda>c. c = CHR '' '') x = []"
    by (auto simp: filter_empty_conv dest: isTokenCont_props(4))
  with 3 show ?case by simp
qed

lemma set_trim: "set (trim s) \<subseteq> set s"
proof -
  have "set (dropWhile isSpace xs) \<subseteq> set xs" for xs
    by (auto dest: set_dropWhileD)
  then show ?thesis
    unfolding trim_def by (metis set_rev subset_trans)
qed

subsection \<open>Phrases and their canonical keys\<close>

lemma buildPhrase_Some:
  assumes "buildPhrase tokens i n = Some p"
  shows "p = trim (joinSpace (take n (drop i tokens)))" "length (take n (drop i tokens)) = n"
  using assms
  by (auto simp: buildPhrase_def Let_def split: if_splits)

lemma buildPhrase_spaces:
  assumes "buildPhrase tokens i n = Some p" "\<forall>t \<in> set tokens. \<forall>c \<in> set t. isTokenCont c"
  shows "(\<forall>c \<in> set p. plainChar c) \<and> length (filter (\<lambda>c. c = CHR '' '') p) \<le> n - 1"
proof -
  let ?slice = "take n (drop i tokens)"
  have tok: "\<forall>t \<in> set ?slice. \<forall>c \<in> set t. isTokenCont c"
    using assms(2) by (meson in_set_dropD in_set_takeD)
  have p: "p = trim (joinSpace ?slice)" and len: "length ?slice = n"
    using buildPhrase_Some [OF assms(1)] by simp_all
  have "\<forall>c \<in> set p. plainChar c"
    using joinSpace_plain [OF tok] set_trim [of "joinSpace ?slice"] p by blast
  moreover have "length (filter (\<lambda>c. c = CHR '' '') p) \<le> n - 1"
    using filter_trim_le [of "\<lambda>c. c = CHR '' ''" "joinSpace ?slice"] joinSpace_spaces [OF tok] len p
    by simp
  ultimately show ?thesis ..
qed

text \<open>The canonical key of a trigram of tokens has at most two spaces, provided the
  canonical forms of the synonym table have.\<close>

lemma getCanonicalKey_spaces:
  assumes tab: "list_all (\<lambda>e. length (filter (\<lambda>c. c = CHR '' '') (SynonymInfo.canonical (snd e))) \<le> 2)
                  SYNONYM_LOOKUP"
    and "buildPhrase tokens i 3 = Some p" "\<forall>t \<in> set tokens. \<forall>c \<in> set t. isTokenCont c"
  shows "length (filter (\<lambda>c. c = CHR '' '') (getCanonicalKey p)) \<le> 2"
proof -
  have p: "\<forall>c \<in> set p. plainChar c" "length (filter (\<lambda>c. c = CHR '' '') p) \<le> 2"
    using buildPhrase_spaces [OF assms(2,3)] by simp_all
  have n: "length (filter (\<lambda>c. c = CHR '' '') (normalizeTerm p)) \<le> 2"
    using normalizeTerm_spaces [OF p(1)] p(2) by simp
  show ?thesis
  proof (cases "synonymGet (normalizeTerm p)")
    case None
    with n show ?thesis
      by (simp add: getCanonicalKey_def Let_def)
  next
    case (Some info)
    then have "(normalizeTerm p, info) \<in> set SYNONYM_LOOKUP"
      by (simp add: synonymGet_def map_of_SomeD)
    with tab have "length (filter (\<lambda>c. c = CHR '' '') (SynonymInfo.canonical info)) \<le> 2"
      by (auto simp: list_all_iff)
    with Some show ?thesis
      by (simp add: getCanonicalKey_def Let_def)
  qed
qed


subsection \<open>Keys of the trigram table\<close>

lemma keys_mapSet_subset: "fst ` set (mapSet m k v) \<subseteq> insert k (fst ` set m)"
  using set_mapSet_subset [of m k v] by auto

lemma ngramStep_keys:
  assumes "\<forall>k \<in> fst ` set counts. P k"
    and "\<forall>p. buildPhrase tokens i 3 = Some p \<longrightarrow> P (getCanonicalKey p)"
  shows "\<forall>k \<in> fst ` set (ngramStep tokens 3 counts i). P k"
proof (cases "buildPhrase tokens i 3")
  case None
  with assms(1) show ?thesis
    by (auto simp: ngramStep_def split: list.splits)
next
  case (Some p)
  with assms(2) have "P (getCanonicalKey p)"
    by simp
  with assms(1) have "\<forall>k \<in> fst ` set (bumpCount counts (getCanonicalKey p)). P k"
    unfolding bumpCount_def using keys_mapSet_subset by fastforce
  with assms(1) Some show ?thesis
    by (auto simp: ngramStep_def split: list.splits)
qed

lemma trigram_keys:
  assumes "\<forall>i p. buildPhrase tokens i 3 = Some p \<longrightarrow> P (getCanonicalKey p)"
  shows "\<forall>k \<in> fst ` set (buildNgramCounts tokens 3). P k"
proof -
  have "\<forall>k \<in> fst ` set counts. P k \<Longrightarrow> \<forall>k \<in> fst ` set (foldl (ngramStep tokens 3) counts is). P k"
    for counts "is"
  proof (induction "is" arbitrary: counts)
    case Nil
    then show ?case by simp
  next
    case (Cons i "is")
    from Cons.prems assms have "\<forall>k \<in> fst ` set (ngramStep tokens 3 counts i). P k"
      by (intro ngramStep_keys) simp_all
    from Cons.IH [OF this] show ?case by simp
  qed
  from this [of "[]"] show ?thesis
    by (simp add: buildNgramCounts_def)
qed

lemma trigram_table_spaces:
  assumes tab: "list_all (\<lambda>e. length (filter (\<lambda>c. c = CHR '' '') (SynonymInfo.canonical (snd e))) \<le> 2)
                  SYNONYM_LOOKUP"
    and "k \<in> fst ` set (buildNgramCounts (tokenize resumeText) 3)"
  shows "length (splitSpace k) \<le> 3"
proof -
  have "\<forall>k \<in> fst ` set (buildNgramCounts (tokenize resumeText) 3).
      length (filter (\<lambda>c. c = CHR '' '') k) \<le> 2"
    by (rule trigram_keys) (use tab getCanonicalKey_spaces tokenize_chars in blast)
  with assms(2) have "length (filter (\<lambda>c. c = CHR '' '') k) \<le> 2"
    by blast
  then show ?thesis
    by (simp add: length_splitSpace)
qed

lemma matchOf_long:
  assumes tab: "list_all (\<lambda>e. length (filter (\<lambda>c. c = CHR '' '') (SynonymInfo.canonical (snd e))) \<le> 2)
                  SYNONYM_LOOKUP"
    and "3 < length (splitSpace (KeywordInsight.canonical kw))"
  shows "map_of (buildNgramCounts (tokenize resumeText) 3) (KeywordInsight.canonical kw) = None"
    and "resumeHits (matchOf uni bi (buildNgramCounts (tokenize resumeText) 3) kw) = 0"
proof -
  have "KeywordInsight.canonical kw \<notin> fst ` set (buildNgramCounts (tokenize resumeText) 3)"
    using trigram_table_spaces [OF tab] assms(2) by fastforce
  then show none: "map_of (buildNgramCounts (tokenize resumeText) 3) (KeywordInsight.canonical kw) = None"
    by (simp add: map_of_eq_None_iff)
  from assms(2) none show "resumeHits (matchOf uni bi (buildNgramCounts (tokenize resumeText) 3) kw) = 0"
    by (simp add: matchOf_def Let_def)
qed

lemma matchOf_canonical [simp]:
  "KeywordMatch.canonical (matchOf uni bi tri kw) = KeywordInsight.canonical kw"
  by (simp add: matchOf_def Let_def)

text \<open>A keyword whose canonical key has more than three pieces finds no entry in the
  trigram table, provided the canonical forms of the synonym table have at most two
  spaces.\<close>

lemma long_keyword_missing:
  assumes tab: "list_all (\<lambda>e. length (filter (\<lambda>c. c = CHR '' '') (SynonymInfo.canonical (snd e))) \<le> 2)
                  SYNONYM_LOOKUP"
    and "kw \<in> set keywords" and "3 < length (splitSpace (KeywordInsight.canonical kw))"
  shows "map_of (buildNgramCounts (tokenize resumeText) 3) (KeywordInsight.canonical kw) = None
    \<and> (\<exists>m \<in> set (missingKeywords (analyzeResume resumeText keywords)).
          KeywordMatch.canonical m = KeywordInsight.canonical kw \<and> resumeHits m = 0)
    \<and> (\<forall>m \<in> set (matchedKeywords (analyzeResume resumeText keywords)).
          KeywordMatch.canonical m \<noteq> KeywordInsight.canonical kw)"
proof -
  let ?tri = "buildNgramCounts (tokenize resumeText) 3"
  let ?f = "matchOf (buildNgramCounts (tokenize resumeText) 1)
              (buildNgramCounts (tokenize resumeText) 2) ?tri"
  have ms: "keywordMatchesOf resumeText keywords = map ?f keywords"
    by (simp add: keywordMatchesOf_def Let_def)
  have zero: "resumeHits (?f k) = 0"
    if "KeywordInsight.canonical k = KeywordInsight.canonical kw" for k
    using matchOf_long(2) [OF tab, of k] assms(3) that by simp
  have miss: "missingKeywords (analyzeResume resumeText keywords)
      = filter (\<lambda>m. resumeHits m = 0) (map ?f keywords)"
    and mat: "matchedKeywords (analyzeResume resumeText keywords)
      = filter (\<lambda>m. resumeHits m > 0) (map ?f keywords)"
    by (simp_all add: analyzeResume_def Let_def ms)
  have "?f kw \<in> set (missingKeywords (analyzeResume resumeText keywords))"
    using assms(2) zero [of kw] by (simp add: miss)
  then have "\<exists>m \<in> set (missingKeywords (analyzeResume resumeText keywords)).
      KeywordMatch.canonical m = KeywordInsight.canonical kw \<and> resumeHits m = 0"
    using zero [of kw] by (intro bexI [of _ "?f kw"]) simp_all
  moreover have "\<forall>m \<in> set (matchedKeywords (analyzeResume resumeText keywords)).
      KeywordMatch.canonical m \<noteq> KeywordInsight.canonical kw"
    using zero by (auto simp: mat)
  ultimately show ?thesis
    using matchOf_long(1) [OF tab assms(3)] by blast
qed

section \<open>Resume scoring: the unigram table\<close>

subsection \<open>Tokens of a text in context\<close>

lemma takeWhile_append_stop:
  "ys = [] \<or> \<not> P (hd ys) \<Longrightarrow> takeWhile P (xs @ ys) = takeWhile P xs"
  by (induction xs) (auto simp: takeWhile_eq_Nil_iff)

lemma dropWhile_append_stop:
  "ys = [] \<or> \<not> P (hd ys) \<Longrightarrow> dropWhile P (xs @ ys) = dropWhile P xs @ ys"
  by (induction xs) (auto simp: dropWhile_eq_self_iff)

text \<open>A token cannot run across a position that is followed by a character outside the
  continuation class, or preceded by one.\<close>

lemma matchTokens_append_right:
  "b = [] \<or> \<not> isTokenCont (hd b) \<Longrightarrow> matchTokens (a @ b) = matchTokens a @ matchTokens b"
proof (induction a rule: matchTokens.induct)
  case 1
  then show ?case by simp
next
  case (2 c cs)
  show ?case
  proof (cases "isTokenStart c")
    case True
    from "2.prems" have tw: "takeWhile isTokenCont (cs @ b) = takeWhile isTokenCont cs"
      and dw: "dropWhile isTokenCont (cs @ b) = dropWhile isTokenCont cs @ b"
      by (simp_all add: takeWhile_append_stop dropWhile_append_stop)
    from "2.IH"(1) [OF True "2.prems"] True tw dw show ?thesis
      by simp
  next
    case False
    from "2.IH"(2) [OF False "2.prems"] False show ?thesis
      by simp
  qed
qed

lemma matchTokens_append_left:
  "a = [] \<or> \<not> isTokenCont (last a) \<Longrightarrow> matchTokens (a @ b) = matchTokens a @ matchTokens b"
proof (induction a rule: matchTokens.induct)
  case 1
  then show ?case by simp
next
  case (2 c cs)
  show ?case
  proof (cases "isTokenStart c")
    case True
    then have c: "isTokenCont c"
      by (simp add: isTokenCont_def)
    with "2.prems" have ne: "cs \<noteq> []" and l: "\<not> isTokenCont (last cs)"
      by (auto split: if_splits)
    then have ex: "last cs \<in> set cs" "\<not> isTokenCont (last cs)"
      by simp_all
    have tw: "takeWhile isTokenCont (cs @ b) = takeWhile isTokenCont cs"
      using ex by (rule takeWhile_append1)
    have dw: "dropWhile isTokenCont (cs @ b) = dropWhile isTokenCont cs @ b"
      using ex by (rule dropWhile_append1)
    have dne: "dropWhile isTokenCont cs \<noteq> []"
      using ex by (auto simp: dropWhile_eq_Nil_conv)
    then have "last (dropWhile isTokenCont cs) = last cs"
      by (metis last_appendR takeWhile_dropWhile_id)
    with l have "dropWhile isTokenCont cs = [] \<or> \<not> isTokenCont (last (dropWhile isTokenCont cs))"
      by simp
    from "2.IH"(1) [OF True this] True tw dw show ?thesis
      by simp
  next
    case False
    show ?thesis
    proof (cases "cs = []")
      case True
      with False show ?thesis by simp
    next
      case ne: False
      with "2.prems" have "cs = [] \<or> \<not> isTokenCont (last cs)"
        by simp
      from "2.IH"(2) [OF False this] False show ?thesis
        by simp
    qed
  qed
qed

lemma tokenize_in_context:
  assumes "pre = [] \<or> \<not> isTokenCont (lowerChar (last pre))"
    and "post = [] \<or> \<not> isTokenCont (lowerChar (hd post))"
  shows "tokenize (pre @ w @ post) = tokenize pre @ tokenize w @ tokenize post"
proof -
  let ?a = "map lowerChar pre" and ?w = "map lowerChar w" and ?b = "map lowerChar post"
  have a: "?a = [] \<or> \<not> isTokenCont (last ?a)"
    using assms(1) by (auto simp: last_map)
  have b: "?b = [] \<or> \<not> isTokenCont (hd ?b)"
    using assms(2) by (auto simp: hd_map)
  have "matchTokens (?a @ (?w @ ?b)) = matchTokens ?a @ matchTokens (?w @ ?b)"
    by (rule matchTokens_append_left [OF a])
  also have "matchTokens (?w @ ?b) = matchTokens ?w @ matchTokens ?b"
    by (rule matchTokens_append_right [OF b])
  finally show ?thesis
    by (simp add: tokenize_def toLowerCase_def)
qed

lemma tokenize_React_js: "tokenize ''React.js'' = [''react'', ''js'']"
  by code_simp

lemma tokenize_react: "tokenize ''react'' = [''react'']"
  by code_simp


subsection \<open>The unigram table as a loop over the tokens\<close>

lemma ngramStep_one:
  "i < length tokens \<Longrightarrow> ngramStep tokens 1 counts i = unigramStep counts (tokens ! i)"
  by (simp add: ngramStep_def unigramStep_def take_Suc_conv_app_nth Cons_nth_drop_Suc [symmetric]
      split: list.splits)

lemma foldl_nth:
  "(\<And>a i. i < length xs \<Longrightarrow> f a i = g a (xs ! i)) \<Longrightarrow>
   foldl f a [0..<length xs] = foldl g a xs"
proof (induction xs arbitrary: a rule: rev_induct)
  case Nil
  then show ?case by simp
next
  case (snoc x xs)
  have "foldl f a [0..<length xs] = foldl g a xs"
    by (rule snoc.IH) (use snoc.prems [of _ a] in \<open>simp add: nth_append\<close>, metis snoc.prems
        length_append_singleton less_SucI nth_append)
  moreover have "f b (length xs) = g b x" for b
    using snoc.prems [of "length xs" b] by simp
  ultimately show ?case
    by simp
qed

lemma buildNgramCounts_one: "buildNgramCounts tokens 1 = foldl unigramStep [] tokens"
proof (cases tokens)
  case Nil
  then show ?thesis
    by (simp add: buildNgramCounts_def)
next
  case (Cons t ts)
  then have "buildNgramCounts tokens 1 = foldl (ngramStep tokens 1) [] [0..<length tokens]"
    by (simp add: buildNgramCounts_def)
  also have "\<dots> = foldl unigramStep [] tokens"
    by (rule foldl_nth) (rule ngramStep_one)
  finally show ?thesis .
qed

text \<open>The count of a key in the table is the number of kept tokens with that canonical
  key.\<close>

lemma countOf_bumpCount:
  "countOf (bumpCount counts k') k = countOf counts k + (if k = k' then 1 else 0)"
  by (simp add: countOf_def bumpCount_def map_of_mapSet)

lemma countOf_unigrams:
  "countOf (foldl unigramStep counts tokens) k =
     countOf counts k + length (filter (\<lambda>t. shouldKeepToken t \<and> getCanonicalKey t = k) tokens)"
  by (induction tokens arbitrary: counts) (auto simp: unigramStep_def countOf_bumpCount)

lemma unigrams_skip:
  "\<not> shouldKeepToken t \<Longrightarrow>
   foldl unigramStep counts (xs @ t # ys) = foldl unigramStep counts (xs @ ys)"
  by (simp add: unigramStep_def)

lemma matchOf_unigram:
  assumes "length (splitSpace (KeywordInsight.canonical kw)) = 1"
  shows "matchOf uni bi tri kw = matchOf uni bi' tri' kw"
    and "resumeHits (matchOf uni bi tri kw) = countOf uni (KeywordInsight.canonical kw)"
  using assms by (simp_all add: matchOf_def Let_def countOf_def)


subsection \<open>A word and its synonym spelling\<close>

text \<open>In a context that bounds the word, the resumes with \<open>React.js\<close> and with \<open>react\<close> have
  the same unigram table: the tokens differ by the token \<open>js\<close>, which is too short to be
  counted. The two facts about the token \<open>react\<close> are evaluated from the synonym table.\<close>

lemma react_unigrams:
  assumes "pre = [] \<or> \<not> isTokenCont (lowerChar (last pre))"
    and "post = [] \<or> \<not> isTokenCont (lowerChar (hd post))"
  shows "buildNgramCounts (tokenize (pre @ ''React.js'' @ post)) 1
       = foldl unigramStep [] (tokenize pre @ ''react'' # tokenize post)"
    and "buildNgramCounts (tokenize (pre @ ''react'' @ post)) 1
       = foldl unigramStep [] (tokenize pre @ ''react'' # tokenize post)"
proof -
  have js: "\<not> shouldKeepToken ''js''"
    by (simp add: shouldKeepToken_def)
  have "tokenize (pre @ ''React.js'' @ post) = tokenize pre @ tokenize ''React.js'' @ tokenize post"
    by (rule tokenize_in_context [OF assms])
  then have "tokenize (pre @ ''React.js'' @ post) = (tokenize pre @ [''react'']) @ ''js'' # tokenize post"
    by (simp only: tokenize_React_js append.simps append_assoc)
  then have "buildNgramCounts (tokenize (pre @ ''React.js'' @ post)) 1
      = foldl unigramStep [] ((tokenize pre @ [''react'']) @ tokenize post)"
    by (simp only: buildNgramCounts_one unigrams_skip [OF js])
  then show "buildNgramCounts (tokenize (pre @ ''React.js'' @ post)) 1
       = foldl unigramStep [] (tokenize pre @ ''react'' # tokenize post)"
    by (simp only: append.simps append_assoc)
  have "tokenize (pre @ ''react'' @ post) = tokenize pre @ tokenize ''react'' @ tokenize post"
    by (rule tokenize_in_context [OF assms])
  then show "buildNgramCounts (tokenize (pre @ ''react'' @ post)) 1
       = foldl unigramStep [] (tokenize pre @ ''react'' # tokenize post)"
    by (simp only: buildNgramCounts_one tokenize_react append.simps)
qed

lemma matched_member:
  "kw \<in> set keywords \<Longrightarrow>
   0 < resumeHits (matchOf (buildNgramCounts (tokenize r) 1) (buildNgramCounts (tokenize r) 2)
         (buildNgramCounts (tokenize r) 3) kw) \<Longrightarrow>
   matchOf (buildNgramCounts (tokenize r) 1) (buildNgramCounts (tokenize r) 2)
         (buildNgramCounts (tokenize r) 3) kw \<in> set (matchedKeywords (analyzeResume r keywords))"
  by (simp add: analyzeResume_def keywordMatchesOf_def Let_def)

lemma react_hit:
  assumes react: "shouldKeepToken ''react''" "getCanonicalKey ''react'' = ''react''"
    and ctx: "pre = [] \<or> \<not> isTokenCont (lowerChar (last pre))"
      "post = [] \<or> \<not> isTokenCont (lowerChar (hd post))"
    and kw: "kw \<in> set keywords" "KeywordInsight.canonical kw = getCanonicalKey ''react''"
  shows "\<exists>m. m \<in> set (matchedKeywords (analyzeResume (pre @ ''React.js'' @ post) keywords))
     \<and> m \<in> set (matchedKeywords (analyzeResume (pre @ ''react'' @ post) keywords))
     \<and> KeywordMatch.canonical m = KeywordInsight.canonical kw \<and> 1 \<le> resumeHits m"
proof -
  define r1 where "r1 = pre @ ''React.js'' @ post"
  define r2 where "r2 = pre @ ''react'' @ post"
  define toks where "toks = tokenize pre @ ''react'' # tokenize post"
  let ?f1 = "matchOf (buildNgramCounts (tokenize r1) 1) (buildNgramCounts (tokenize r1) 2)
               (buildNgramCounts (tokenize r1) 3)"
  let ?f2 = "matchOf (buildNgramCounts (tokenize r2) 1) (buildNgramCounts (tokenize r2) 2)
               (buildNgramCounts (tokenize r2) 3)"
  have u1: "buildNgramCounts (tokenize r1) 1 = foldl unigramStep [] toks"
    and u2: "buildNgramCounts (tokenize r2) 1 = foldl unigramStep [] toks"
    unfolding r1_def r2_def toks_def by (rule react_unigrams [OF ctx])+
  have canon: "KeywordInsight.canonical kw = ''react''"
    using kw(2) react(2) by simp
  then have one: "length (splitSpace (KeywordInsight.canonical kw)) = 1"
    by (simp add: length_splitSpace)
  have same: "?f1 kw = ?f2 kw"
    unfolding u1 u2 by (rule matchOf_unigram(1) [OF one])
  have "''react'' \<in> set (filter (\<lambda>t. shouldKeepToken t \<and> getCanonicalKey t = ''react'') toks)"
    using react by (simp add: toks_def)
  then have "0 < length (filter (\<lambda>t. shouldKeepToken t \<and> getCanonicalKey t = ''react'') toks)"
    by (rule length_pos_if_in_set)
  moreover have "resumeHits (?f2 kw) = countOf (foldl unigramStep [] toks) ''react''"
    by (simp only: matchOf_unigram(2) [OF one] canon u2)
  moreover have "countOf (foldl unigramStep [] toks) ''react''
      = length (filter (\<lambda>t. shouldKeepToken t \<and> getCanonicalKey t = ''react'') toks)"
    by (simp only: countOf_unigrams) (simp add: countOf_def)
  ultimately have hit: "0 < resumeHits (?f2 kw)"
    by simp
  then have hit1: "0 < resumeHits (?f1 kw)"
    by (simp only: same)
  have a: "?f2 kw \<in> set (matchedKeywords (analyzeResume (pre @ ''react'' @ post) keywords))"
    unfolding r2_def [symmetric] by (rule matched_member [OF kw(1) hit])
  have "?f1 kw \<in> set (matchedKeywords (analyzeResume r1 keywords))"
    by (rule matched_member [OF kw(1) hit1])
  then have b: "?f2 kw \<in> set (matchedKeywords (analyzeResume (pre @ ''React.js'' @ post) keywords))"
    unfolding r1_def [symmetric] by (simp only: same)
  have c: "KeywordMatch.canonical (?f2 kw) = KeywordInsight.canonical kw"
    by (rule matchOf_canonical)
  from hit have d: "1 \<le> resumeHits (?f2 kw)"
    by simp
  show ?thesis
    by (rule exI [of _ "?f2 kw"]) (intro conjI b a c d)
qed

section \<open>Concrete runs of the model\<close>

text \<open>The theorems of this section rest on evaluations of the model: on the computed
  synonym table and on runs at concrete inputs.\<close>

text \<open>The text \<open>aws\<close> yields the single keyword \<open>aws\<close>, which is therefore the top-ranked
  candidate and the result.\<close>

lemma extractKeywords_aws:
  "map KeywordInsight.canonical (extractKeywords ''aws'' 28) = [''aws'']"
  by code_simp


subsection \<open>Keywords of more than three tokens\<close>

lemma synonym_canonical_spaces:
  "list_all (\<lambda>e. length (filter (\<lambda>c. c = CHR '' '') (SynonymInfo.canonical (snd e))) \<le> 2)
     SYNONYM_LOOKUP"
  by code_simp

text \<open>
  Claim C9. For every resume text and every keyword whose canonical key has more than 3
  space-separated tokens, \<^verbatim>\<open>analyzeResume\<close> does not fail: the hit count is looked up in the
  trigram table, which cannot contain the key, so the keyword receives \<^verbatim>\<open>resumeHits = 0\<close>, is
  placed in \<^verbatim>\<open>missingKeywords\<close> and does not occur in \<^verbatim>\<open>matchedKeywords\<close>.
\<close>

theorem analyzeResume_long_keyword:
  assumes "kw \<in> set keywords" and "3 < length (splitSpace (KeywordInsight.canonical kw))"
  shows "map_of (buildNgramCounts (tokenize resumeText) 3) (KeywordInsight.canonical kw) = None
    \<and> (\<exists>m \<in> set (missingKeywords (analyzeResume resumeText keywords)).
          KeywordMatch.canonical m = KeywordInsight.canonical kw \<and> resumeHits m = 0)
    \<and> (\<forall>m \<in> set (matchedKeywords (analyzeResume resumeText keywords)).
          KeywordMatch.canonical m \<noteq> KeywordInsight.canonical kw)"
  by (rule long_keyword_missing [OF synonym_canonical_spaces assms])

text \<open>The keyword \<open>a b c d\<close> against the resume \<open>react\<close>.\<close>

theorem analyzeResume_long_keyword_witness:
  "map_of (buildNgramCounts (tokenize ''react'') 3) ''a b c d'' = None
   \<and> (\<exists>m \<in> set (missingKeywords (analyzeResume ''react''
         [\<lparr>KeywordInsight.canonical = ''a b c d'', label = ''A B C D'', occurrences = 1,
           importance = 1, section = Core, source = Phrase, variants = [], coverage = 1\<rparr>])).
         KeywordMatch.canonical m = ''a b c d'' \<and> resumeHits m = 0)"
proof -
  let ?kw = "\<lparr>KeywordInsight.canonical = ''a b c d'', label = ''A B C D'', occurrences = 1,
           importance = 1, section = Core, source = Phrase, variants = [], coverage = 1\<rparr>"
  have a: "?kw \<in> set [?kw]"
    by simp
  have b: "3 < length (splitSpace (KeywordInsight.canonical ?kw))"
    by (simp add: length_splitSpace)
  from analyzeResume_long_keyword [OF a b, of "''react''"] show ?thesis
    by simp
qed

subsection \<open>The synonym spelling of a word\<close>

lemma react_token: "shouldKeepToken ''react''" "getCanonicalKey ''react'' = ''react''"
  by code_simp+



subsection \<open>The tier scenario\<close>

text \<open>The run of \<^verbatim>\<open>extractKeywords\<close> on the scenario text with the default limit: the
  canonical keys and tiers of the result, in order.\<close>

lemma scenario_run:
  "map (\<lambda>k. (KeywordInsight.canonical k, KeywordInsight.section k)) (extractKeywords scenarioJD 28) =
     [(''requirements'', Core), (''react'', Core), (''experience'', Core),
      (''responsibilities'', Core), (''lead'', Core), (''agile'', Core), (''ceremonies'', Core),
      (''preferred'', Core), (''aws'', Core), (''certification'', Core),
      (''react experience'', Core), (''react experience responsibilities'', Core),
      (''experience responsibilities'', Core), (''experience responsibilities lead'', Core),
      (''responsibilities lead'', Core), (''responsibilities lead agile'', Core),
      (''lead agile'', Core), (''lead agile ceremonies'', Core), (''agile ceremonies'', Core),
      (''agile ceremonies preferred'', Core), (''ceremonies preferred'', Core),
      (''ceremonies preferred aws'', Core), (''preferred aws'', Core),
      (''preferred aws certification'', Core), (''aws certification'', Core)]"
  by code_simp

lemma scenario_fragments:
  "map SectionFragment.section (splitIntoFragments scenarioJD) = [Core] \<and> length scenarioJD = 112"
  by code_simp

text \<open>
  Claim C6, as stated: \<^verbatim>\<open>extractKeywords\<close> on the scenario text tags \<open>react\<close> with tier core,
  \<open>agile\<close> with tier responsibility and \<open>aws\<close> with tier preferred. It fails: no keyword
  of the result has the tier responsibility or preferred.
\<close>

theorem scenario_tiers_counterexample:
  "\<not> ((\<exists>k \<in> set (extractKeywords scenarioJD 28).
          KeywordInsight.canonical k = ''react'' \<and> KeywordInsight.section k = Core)
      \<and> (\<exists>k \<in> set (extractKeywords scenarioJD 28).
          KeywordInsight.canonical k = ''agile'' \<and> KeywordInsight.section k = Responsibility)
      \<and> (\<exists>k \<in> set (extractKeywords scenarioJD 28).
          KeywordInsight.canonical k = ''aws'' \<and> KeywordInsight.section k = Preferred))"
proof -
  have "list_all (\<lambda>e. snd e = Core)
      (map (\<lambda>k. (KeywordInsight.canonical k, KeywordInsight.section k)) (extractKeywords scenarioJD 28))"
    unfolding scenario_run by simp
  then have "\<forall>k \<in> set (extractKeywords scenarioJD 28). KeywordInsight.section k = Core"
    by (simp add: list_all_iff)
  then show ?thesis
    by auto
qed

text \<open>
  Claim C6, amended: on the scenario text, one line of 112 characters, \<^verbatim>\<open>extractKeywords\<close> with
  the default limit tags \<open>react\<close>, \<open>agile\<close> and \<open>aws\<close> all with tier core. A line of more than
  80 characters is never taken as a heading, and the inline marker \<open>Must\<close> gives the only
  fragment the tier core.
\<close>

theorem scenario_tiers:
  "filter (\<lambda>e. fst e \<in> set [''react'', ''agile'', ''aws''])
     (map (\<lambda>k. (KeywordInsight.canonical k, KeywordInsight.section k))
        (extractKeywords scenarioJD 28))
     = [(''react'', Core), (''agile'', Core), (''aws'', Core)]
   \<and> map SectionFragment.section (splitIntoFragments scenarioJD) = [Core]
   \<and> length scenarioJD = 112"
  unfolding scenario_run using scenario_fragments by simp

end
